theory Spec2Isabelle
  imports Main "HOL-Library.Sublist"
begin

section \<open>JavaScript strings and values\<close>

text \<open>
  A JavaScript string is modelled as a \<^typ>\<open>string\<close>: one \<^typ>\<open>char\<close> per code unit, so
  the model covers the texts whose code units are below 256. The white space class of
  \<^verbatim>\<open>\s\<close> and of \<^verbatim>\<open>String.prototype.trim\<close> is, in that range, TAB, LF, VT, FF, CR,
  SPACE and NBSP.
\<close>

definition NL :: char where
  "NL = CHR 0x0A"

definition is_space :: "char \<Rightarrow> bool" where
  "is_space c = (c \<in> set [CHR 0x09, CHR 0x0A, CHR 0x0B, CHR 0x0C, CHR 0x0D, CHR 0x20, CHR 0xA0])"

definition ltrim :: "string \<Rightarrow> string" where
  "ltrim s = dropWhile is_space s"

definition trim :: "string \<Rightarrow> string" where
  "trim s = rev (ltrim (rev (ltrim s)))"

text \<open>\<^verbatim>\<open>s.startsWith(p)\<close>.\<close>

definition startsWith :: "string \<Rightarrow> string \<Rightarrow> bool" where
  "startsWith s p = (take (length p) s = p)"

text \<open>\<^verbatim>\<open>s.split(sep)\<close> for a one-character separator: never the empty list.\<close>

fun split_on :: "char \<Rightarrow> string \<Rightarrow> string list" where
  "split_on sep [] = [[]]"
| "split_on sep (c # cs) =
     (if c = sep then [] # split_on sep cs
      else (case split_on sep cs of [] \<Rightarrow> [[c]] | l # ls \<Rightarrow> (c # l) # ls))"

text \<open>\<^verbatim>\<open>xs.join(sep)\<close>.\<close>

fun join :: "string \<Rightarrow> string list \<Rightarrow> string" where
  "join sep [] = []"
| "join sep [x] = x"
| "join sep (x # y # ys) = x @ sep @ join sep (y # ys)"

text \<open>\<^verbatim>\<open>s.includes(p)\<close>: \<open>p\<close> occurs in \<open>s\<close> as a contiguous block.\<close>

fun includes_str :: "string \<Rightarrow> string \<Rightarrow> bool" where
  "includes_str [] p = (p = [])"
| "includes_str (c # cs) p = (startsWith (c # cs) p \<or> includes_str cs p)"

text \<open>
  \<^verbatim>\<open>String.prototype.toLowerCase\<close> on code units below 256: the ASCII capitals and the
  Latin-1 capitals (0xC0 to 0xDE, the multiplication sign 0xD7 apart) move up by 0x20.
\<close>

definition lower_char :: "char \<Rightarrow> char" where
  "lower_char c =
     (let n = (of_char c :: nat) in
      if (65 \<le> n \<and> n \<le> 90) \<or> (192 \<le> n \<and> n \<le> 222 \<and> n \<noteq> 215) then char_of (n + 32) else c)"

definition toLowerCase :: "string \<Rightarrow> string" where
  "toLowerCase s = map lower_char s"

text \<open>
  The values a manifest field holds at run time: the TypeScript casts (\<^verbatim>\<open>as string\<close>) check
  nothing, so a field typed \<^verbatim>\<open>string\<close> holds whatever the header parser stored.
\<close>

datatype js_value = Undefined | Str string | Arr "string list"

text \<open>JavaScript truthiness: \<^verbatim>\<open>undefined\<close> and \<^verbatim>\<open>''\<close> are falsy, every array is truthy.\<close>

fun truthy :: "js_value \<Rightarrow> bool" where
  "truthy Undefined = False"
| "truthy (Str s) = (s \<noteq> [])"
| "truthy (Arr xs) = True"

text \<open>\<^verbatim>\<open>a || b\<close>.\<close>

definition js_or :: "js_value \<Rightarrow> js_value \<Rightarrow> js_value" where
  "js_or a b = (if truthy a then a else b)"

text \<open>\<^verbatim>\<open>String(v)\<close>, the conversion \<^verbatim>\<open>RegExp.prototype.test\<close> applies to its argument.\<close>

fun to_js_string :: "js_value \<Rightarrow> string" where
  "to_js_string Undefined = ''undefined''"
| "to_js_string (Str s) = s"
| "to_js_string (Arr xs) = join '','' xs"

section \<open>The metadata extractor (SkillParser)\<close>

subsection \<open>extractFrontmatter\<close>

text \<open>
  The regular expression is \<^verbatim>\<open>/^---\s*\n([\s\S]*?)\n---\s*\n([\s\S]*)$/\<close>, matched by
  backtracking. \<open>ws_nl s\<close> lists what is left of \<open>s\<close> after each way of matching
  \<^verbatim>\<open>\s*\n\<close> at its start, in the order the greedy star tries them (longest first).
\<close>

fun ws_nl :: "string \<Rightarrow> string list" where
  "ws_nl [] = []"
| "ws_nl (c # cs) = (if is_space c then ws_nl cs @ (if c = NL then [cs] else []) else [])"

text \<open>
  The lazy group \<^verbatim>\<open>([\s\S]*?)\<close> grows one character at a time; \<open>acc\<close> is what it holds.
  At each length the rest must be \<^verbatim>\<open>\n---\s*\n\<close> and then anything.
\<close>

fun find_close :: "string \<Rightarrow> string \<Rightarrow> (string \<times> string) option" where
  "find_close acc [] = None"
| "find_close acc (c # cs) =
     (if startsWith (c # cs) (NL # ''---'') \<and> ws_nl (drop 4 (c # cs)) \<noteq> []
      then Some (acc, hd (ws_nl (drop 4 (c # cs))))
      else find_close (acc @ [c]) cs)"

fun first_some :: "'a option list \<Rightarrow> 'a option" where
  "first_some [] = None"
| "first_some (None # xs) = first_some xs"
| "first_some (Some x # xs) = Some x"

definition extractFrontmatter :: "string \<Rightarrow> (string \<times> string) option" where
  "extractFrontmatter content =
     (if startsWith content ''---''
      then first_some (map (find_close []) (ws_nl (drop 3 content)))
      else None)"

subsection \<open>parseSimpleYaml\<close>

text \<open>\<^verbatim>\<open>value.replace(/^["']|["']$/g, '')\<close>: one quote off the front, then one off the end.\<close>

definition is_quote :: "char \<Rightarrow> bool" where
  "is_quote c = (c = CHR 0x22 \<or> c = CHR 0x27)"

definition strip_quotes :: "string \<Rightarrow> string" where
  "strip_quotes v =
     (let v1 = (case v of [] \<Rightarrow> [] | c # cs \<Rightarrow> if is_quote c then cs else v)
      in if v1 \<noteq> [] \<and> is_quote (last v1) then butlast v1 else v1)"

text \<open>
  \<^verbatim>\<open>result[key] = v\<close> on a plain object: the key \<^verbatim>\<open>__proto__\<close> goes to the prototype setter
  and makes no property of the object's own; no property the parser reads afterwards is
  found through a prototype set that way.
\<close>

definition assign :: "(string \<rightharpoonup> js_value) \<Rightarrow> string \<Rightarrow> js_value \<Rightarrow> (string \<rightharpoonup> js_value)" where
  "assign r k v = (if k = ''__proto__'' then r else r(k \<mapsto> v))"

record yaml_state =
  result :: "string \<rightharpoonup> js_value"
  currentKey :: string
  currentArray :: "string list option"

text \<open>One iteration of the loop over the header's lines.\<close>

definition yaml_line :: "yaml_state \<Rightarrow> string \<Rightarrow> yaml_state" where
  "yaml_line st line =
     (let trimmed = trim line in
      if trimmed = [] \<or> startsWith trimmed ''#'' then st
      else if startsWith trimmed ''- '' then
        (case currentArray st of
           Some arr \<Rightarrow> st\<lparr>currentArray := Some (arr @ [trim (drop 2 trimmed)])\<rparr>
         | None \<Rightarrow> st)
      else
        (let colonIndex = length (takeWhile (\<lambda>c. c \<noteq> CHR '':'') trimmed) in
         if colonIndex < length trimmed \<and> colonIndex > 0 then
           (let st1 = (case currentArray st of
                         Some arr \<Rightarrow>
                           if currentKey st \<noteq> []
                           then st\<lparr>result := assign (result st) (currentKey st) (Arr arr), currentArray := None\<rparr>
                           else st
                       | None \<Rightarrow> st);
                key = trim (take colonIndex trimmed);
                val = trim (drop (colonIndex + 1) trimmed)
            in if val = [] then st1\<lparr>currentKey := key, currentArray := Some []\<rparr>
               else st1\<lparr>currentKey := key, result := assign (result st1) key (Str (strip_quotes val))\<rparr>)
         else st))"

definition parseSimpleYaml :: "string \<Rightarrow> (string \<rightharpoonup> js_value)" where
  "parseSimpleYaml yaml =
     (let st = foldl yaml_line \<lparr>result = Map.empty, currentKey = [], currentArray = None\<rparr>
                 (split_on NL yaml)
      in case currentArray st of
           Some arr \<Rightarrow> if currentKey st \<noteq> [] then assign (result st) (currentKey st) (Arr arr) else result st
         | None \<Rightarrow> result st)"

text \<open>Reading a property of the parsed header: a missing key reads as \<^verbatim>\<open>undefined\<close>.\<close>

definition get_prop :: "(string \<rightharpoonup> js_value) \<Rightarrow> string \<Rightarrow> js_value" where
  "get_prop y k = (case y k of None \<Rightarrow> Undefined | Some v \<Rightarrow> v)"

subsection \<open>extractDescription\<close>

definition is_heading :: "string \<Rightarrow> bool" where
  "is_heading t = startsWith t ''#''"

definition is_stop :: "string \<Rightarrow> bool" where
  "is_stop t = (t = [] \<or> startsWith t ''```'')"

text \<open>The loop over the body's lines; \<open>acc\<close> is \<^verbatim>\<open>descriptionLines\<close>.\<close>

fun descriptionLoop :: "string list \<Rightarrow> string list \<Rightarrow> string list" where
  "descriptionLoop [] acc = acc"
| "descriptionLoop (line # rest) acc =
     (let trimmed = trim line in
      if is_heading trimmed then descriptionLoop rest acc
      else if is_stop trimmed then (if length acc > 0 then acc else descriptionLoop rest acc)
      else if length (acc @ [trimmed]) \<ge> 3 then acc @ [trimmed]
      else descriptionLoop rest (acc @ [trimmed]))"

definition extractDescription :: "string \<Rightarrow> string" where
  "extractDescription body = take 300 (join '' '' (descriptionLoop (split_on NL (trim body)) []))"

subsection \<open>parseSkillMd\<close>

record SkillMetadata =
  name :: js_value
  description :: js_value
  category :: js_value
  tags :: js_value
  author :: js_value
  version :: js_value
  triggers :: js_value
  dependencies :: js_value

definition parseSkillMd :: "string \<Rightarrow> SkillMetadata" where
  "parseSkillMd content =
     (case extractFrontmatter content of
        None \<Rightarrow>
          \<lparr>name = Str ''Unknown Skill'', description = Str (extractDescription content),
           category = Undefined, tags = Undefined, author = Undefined, version = Undefined,
           triggers = Undefined, dependencies = Undefined\<rparr>
      | Some (frontmatter, body) \<Rightarrow>
          (let yaml = parseSimpleYaml frontmatter in
           \<lparr>name = js_or (get_prop yaml ''name'') (Str ''Unknown Skill''),
            description = js_or (get_prop yaml ''description'') (Str (extractDescription body)),
            category = get_prop yaml ''category'', tags = get_prop yaml ''tags'',
            author = get_prop yaml ''author'', version = get_prop yaml ''version'',
            triggers = get_prop yaml ''triggers'', dependencies = get_prop yaml ''dependencies''\<rparr>))"

subsection \<open>validateSkill\<close>

record ValidationResult =
  isValid :: bool
  errors :: "string list"
  warnings :: "string list"

text \<open>\<^verbatim>\<open>\w\<close> is \<^verbatim>\<open>[A-Za-z0-9_]\<close>.\<close>

definition is_word_char :: "char \<Rightarrow> bool" where
  "is_word_char c =
     (let n = (of_char c :: nat) in
      (65 \<le> n \<and> n \<le> 90) \<or> (97 \<le> n \<and> n \<le> 122) \<or> (48 \<le> n \<and> n \<le> 57) \<or> n = 95)"

text \<open>\<^verbatim>\<open>/^[\w\s-]+$/.test(s)\<close>.\<close>

definition name_format_ok :: "string \<Rightarrow> bool" where
  "name_format_ok s = (s \<noteq> [] \<and> list_all (\<lambda>c. is_word_char c \<or> is_space c \<or> c = CHR ''-'') s)"

definition validateSkill :: "SkillMetadata \<Rightarrow> ValidationResult" where
  "validateSkill metadata =
     (let errors0 = (if \<not> truthy (name metadata) \<or> name metadata = Str ''Unknown Skill''
                     then [''Skill name is required in SKILL.md frontmatter''] else []);
          warnings1 = (if \<not> truthy (description metadata)
                       then [''Skill description is recommended''] else []);
          warnings2 = (if truthy (name metadata) \<and> \<not> name_format_ok (to_js_string (name metadata))
                       then warnings1 @ [''Skill name should only contain letters, numbers, spaces, and hyphens'']
                       else warnings1)
      in \<lparr>isValid = (length errors0 = 0), errors = errors0, warnings = warnings2\<rparr>)"

subsection \<open>inferCategory\<close>

definition categoryPatterns :: "(string \<times> string list) list" where
  "categoryPatterns =
     [(''security'', [''security'', ''audit'', ''vulnerability'', ''owasp'', ''penetration'']),
      (''engineering'', [''code'', ''develop'', ''engineer'', ''debug'', ''refactor'']),
      (''testing'', [''test'', ''spec'', ''jest'', ''mocha'', ''coverage'']),
      (''documentation'', [''doc'', ''readme'', ''comment'', ''jsdoc'']),
      (''devops'', [''deploy'', ''docker'', ''kubernetes'', ''ci'', ''cd'', ''pipeline'']),
      (''database'', [''sql'', ''database'', ''mongo'', ''postgres'', ''redis'']),
      (''creative'', [''design'', ''ui'', ''ux'', ''creative'', ''style'']),
      (''utility'', [''util'', ''helper'', ''tool'', ''format'', ''validate''])]"

text \<open>The loop over \<^verbatim>\<open>Object.entries(categoryPatterns)\<close>, which keeps insertion order.\<close>

fun first_category :: "string \<Rightarrow> (string \<times> string list) list \<Rightarrow> string option" where
  "first_category txt [] = None"
| "first_category txt ((cat, patterns) # rest) =
     (if list_ex (\<lambda>pattern. includes_str txt pattern) patterns then Some cat
      else first_category txt rest)"

definition inferCategory :: "string \<Rightarrow> string \<Rightarrow> string option" where
  "inferCategory skillName path = first_category (toLowerCase (skillName @ '' '' @ path)) categoryPatterns"


text \<open>The declarative reading of \<^verbatim>\<open>includes\<close>, and a table row one of whose keywords occurs.\<close>

definition occurs :: "string \<Rightarrow> string \<Rightarrow> bool" where
  "occurs p txt = (\<exists>pre suf. txt = pre @ p @ suf)"

definition row_matches :: "string \<Rightarrow> (string \<times> string list) \<Rightarrow> bool" where
  "row_matches txt row = (\<exists>p \<in> set (snd row). occurs p txt)"


text \<open>
  The fallback description in the words of the specification: a text line is a trimmed line
  that is neither a heading nor a stop line (blank, or opening a fenced block). Headings are
  left out throughout, stop lines are passed over until the first text line, and up to three
  text lines are taken up to the next stop line.
\<close>

definition is_text :: "string \<Rightarrow> bool" where
  "is_text t = (\<not> is_heading t \<and> \<not> is_stop t)"

definition fallback_lines :: "string list \<Rightarrow> string list" where
  "fallback_lines ts =
     take 3 (takeWhile (\<lambda>t. \<not> is_stop t) (dropWhile is_stop (filter (\<lambda>t. \<not> is_heading t) ts)))"

section \<open>The repository tree and bundle discovery (GitHubService)\<close>

text \<open>
  A node of the remote tree, with the fields the service reads (\<^verbatim>\<open>mode\<close>, \<^verbatim>\<open>size\<close> and
  \<^verbatim>\<open>url\<close> are never read), and the tree response.
\<close>

datatype node_type = Blob | Tree

record TreeNode =
  node_path :: string
  node_type :: node_type
  node_sha :: string

record RepositoryTree =
  tree :: "TreeNode list"
  truncated :: bool

datatype file_type = File | Directory

record SkillFile =
  file_name :: string
  file_path :: string
  file_type :: file_type
  file_sha :: "string option"

text \<open>\<^verbatim>\<open>const prefix = skillPath ? `${skillPath}/` : ''\<close>.\<close>

definition skill_prefix :: "string \<Rightarrow> string" where
  "skill_prefix skillPath = (if skillPath \<noteq> [] then skillPath @ ''/'' else [])"

text \<open>The loop of \<^verbatim>\<open>getSkillFiles\<close> over the tree's nodes; each push appends one entry.\<close>

fun skillFilesLoop :: "string \<Rightarrow> TreeNode list \<Rightarrow> SkillFile list" where
  "skillFilesLoop skillPath [] = []"
| "skillFilesLoop skillPath (node # nodes) =
     (if startsWith (node_path node) (skill_prefix skillPath)
         \<or> (skillPath = [] \<and> \<not> includes_str (node_path node) ''/'')
      then
        (let relativePath =
               (if skillPath \<noteq> [] then drop (length (skill_prefix skillPath)) (node_path node)
                else node_path node)
         in if includes_str relativePath ''/'' then skillFilesLoop skillPath nodes
            else \<lparr>file_name = relativePath, file_path = node_path node,
                   file_type = (if node_type node = Tree then Directory else File),
                   file_sha = Some (node_sha node)\<rparr> # skillFilesLoop skillPath nodes)
      else skillFilesLoop skillPath nodes)"

definition getSkillFiles :: "RepositoryTree \<Rightarrow> string \<Rightarrow> SkillFile list" where
  "getSkillFiles t skillPath = skillFilesLoop skillPath (tree t)"

text \<open>
  A direct child of the bundle directory, in the words of the specification: the path
  begins with the directory and a separator (with nothing, for the root bundle), and the
  remainder holds no further separator.
\<close>

definition is_direct_child :: "string \<Rightarrow> string \<Rightarrow> bool" where
  "is_direct_child skillPath p =
     (\<exists>r. p = skill_prefix skillPath @ r \<and> CHR ''/'' \<notin> set r)"

definition entry_of :: "string \<Rightarrow> TreeNode \<Rightarrow> SkillFile" where
  "entry_of skillPath node =
     \<lparr>file_name = drop (length (skill_prefix skillPath)) (node_path node),
      file_path = node_path node,
      file_type = (if node_type node = Tree then Directory else File),
      file_sha = Some (node_sha node)\<rparr>"

section \<open>The remote tree cache (GitHubService)\<close>

subsection \<open>The world the service and the installer act on\<close>

text \<open>
  A path of the local file system is the list of its components from the root; a file
  system maps the paths that exist to what is there. File contents are the bytes of a
  download or the provenance record the installer writes.
\<close>

type_synonym path = "string list"

record InstallMetadata =
  meta_id :: string
  meta_name :: string
  meta_repository :: string
  meta_path :: string
  meta_installedAt :: int
  meta_version :: "string option"

datatype file_data = Buffer string | MetadataJson InstallMetadata

datatype fs_node = Dir | RegularFile file_data

type_synonym filesystem = "path \<rightharpoonup> fs_node"

datatype errno = ENOENT | ENOTDIR | EEXIST | EISDIR

text \<open>
  What a rejected promise carries: the two failures \<^verbatim>\<open>fetchWithCache\<close> throws (the
  rate-limit message with the reset time, \<^verbatim>\<open>None\<close> for an invalid date, and the generic
  message with status and status text), a rejected \<^verbatim>\<open>fetch\<close>, a body that cannot be read,
  the failure of \<^verbatim>\<open>downloadFile\<close>, a rejected file system call, and the failure of
  \<^verbatim>\<open>uninstall\<close>.
\<close>

datatype exn =
    RateLimitExceeded "int option"
  | GitHubApiError nat string
  | FetchRejected string
  | BodyRejected
  | DownloadFailed string
  | FsError errno
  | NotInstalled string

record request =
  req_url :: string
  req_headers :: "(string \<times> string) list"

text \<open>
  A response: \<open>json\<close> is what \<^verbatim>\<open>response.json()\<close> resolves to and \<open>raw_body\<close> what
  \<^verbatim>\<open>response.arrayBuffer()\<close> resolves to (\<open>None\<close>: the promise rejects); \<open>headers\<close> is
  \<^verbatim>\<open>response.headers.get\<close>.
\<close>

record 'a response =
  status :: nat
  statusText :: string
  headers :: "string \<rightharpoonup> string"
  json :: "'a option"
  raw_body :: "string option"

record 'a CacheEntry =
  data :: 'a
  expiresAt :: int
  etag :: "string option"

text \<open>A JavaScript number read by \<^verbatim>\<open>parseInt\<close> is \<open>None\<close> when it is NaN.\<close>

record RateLimitInfo =
  limit :: "int option"
  remaining :: "int option"
  reset :: "int option"

text \<open>
  The environment: the remote side answers a request knowing the requests made before it,
  \<^verbatim>\<open>Date.now()\<close> returns \<open>clock n\<close> at its \<open>n\<close>-th call, and the configuration holds the
  token, the cache expiry in seconds and the custom install path; \<open>homedir\<close> and \<open>cwd\<close>
  are \<^verbatim>\<open>os.homedir()\<close> and the working directory.
\<close>

record 'a env =
  net :: "request list \<Rightarrow> request \<Rightarrow> exn + 'a response"
  clock :: "nat \<Rightarrow> int"
  githubToken :: string
  cacheExpirySeconds :: int
  customPath :: string
  homedir :: path
  cwd :: path

text \<open>
  The state: the service's cache and rate-limit record, the local file system, and two
  logs, the requests sent so far and the number of clock readings.
\<close>

record 'a state =
  cache :: "string \<rightharpoonup> 'a CacheEntry"
  rateLimitInfo :: "RateLimitInfo option"
  disk :: filesystem
  requests :: "request list"
  ticks :: nat

definition fetch :: "'a env \<Rightarrow> request \<Rightarrow> 'a state \<Rightarrow> (exn + 'a response) \<times> 'a state" where
  "fetch env req s = (net env (requests s) req, s\<lparr>requests := requests s @ [req]\<rparr>)"

definition dateNow :: "'a env \<Rightarrow> 'a state \<Rightarrow> int \<times> 'a state" where
  "dateNow env s = (clock env (ticks s), s\<lparr>ticks := Suc (ticks s)\<rparr>)"

text \<open>\<^verbatim>\<open>response.ok\<close>.\<close>

definition ok :: "'a response \<Rightarrow> bool" where
  "ok r = (200 \<le> status r \<and> status r \<le> 299)"

subsection \<open>getConfig, getHeaders, updateRateLimit\<close>

definition cacheExpiry :: "'a env \<Rightarrow> int" where
  "cacheExpiry env = cacheExpirySeconds env * 1000"

definition getHeaders :: "'a env \<Rightarrow> string option \<Rightarrow> (string \<times> string) list" where
  "getHeaders env etag_opt =
     [(''Accept'', ''application/vnd.github+json''),
      (''X-GitHub-Api-Version'', ''2022-11-28''),
      (''User-Agent'', ''Skill-Manager-VSCode-Extension'')]
     @ (if githubToken env \<noteq> [] then [(''Authorization'', ''Bearer '' @ githubToken env)] else [])
     @ (case etag_opt of
          Some e \<Rightarrow> if e \<noteq> [] then [(''If-None-Match'', e)] else []
        | None \<Rightarrow> [])"

text \<open>
  \<^verbatim>\<open>parseInt(s, 10)\<close>: leading white space, an optional sign, then the longest run of
  decimal digits; NaN when there is none. (The rounding of integers beyond 2^53 is left
  out.)
\<close>

definition is_digit :: "char \<Rightarrow> bool" where
  "is_digit c = (48 \<le> (of_char c :: nat) \<and> (of_char c :: nat) \<le> 57)"

definition digits_value :: "string \<Rightarrow> nat" where
  "digits_value ds = foldl (\<lambda>a c. 10 * a + (of_char c - 48)) 0 ds"

definition parseInt :: "string \<Rightarrow> int option" where
  "parseInt s =
     (let t = ltrim s;
          neg = (t \<noteq> [] \<and> hd t = CHR ''-'');
          u = (if t \<noteq> [] \<and> (hd t = CHR ''-'' \<or> hd t = CHR ''+'') then tl t else t);
          ds = takeWhile is_digit u
      in if ds = [] then None
         else Some (if neg then - int (digits_value ds) else int (digits_value ds)))"

text \<open>
  \<^verbatim>\<open>new Date(ms)\<close>: the time value in milliseconds, or an invalid date (\<open>None\<close>) when
  the number is NaN or beyond 8.64e15 either way.
\<close>

definition newDate :: "int option \<Rightarrow> int option" where
  "newDate ms =
     (case ms of
        None \<Rightarrow> None
      | Some n \<Rightarrow> if \<bar>n\<bar> \<le> 8640000000000000 then Some n else None)"

definition updateRateLimit :: "(string \<rightharpoonup> string) \<Rightarrow> 'a state \<Rightarrow> 'a state" where
  "updateRateLimit hdrs s =
     (case (hdrs ''x-ratelimit-limit'', hdrs ''x-ratelimit-remaining'', hdrs ''x-ratelimit-reset'') of
        (Some l, Some r, Some t) \<Rightarrow>
          if l \<noteq> [] \<and> r \<noteq> [] \<and> t \<noteq> []
          then s\<lparr>rateLimitInfo :=
                   Some \<lparr>limit = parseInt l, remaining = parseInt r,
                         reset = newDate (map_option (\<lambda>n. n * 1000) (parseInt t))\<rparr>\<rparr>
          else s
      | _ \<Rightarrow> s)"

subsection \<open>fetchWithCache\<close>

text \<open>\<^verbatim>\<open>this.rateLimitInfo?.remaining === 0\<close>.\<close>

definition quota_is_zero :: "'a state \<Rightarrow> bool" where
  "quota_is_zero s = (case rateLimitInfo s of Some info \<Rightarrow> remaining info = Some 0 | None \<Rightarrow> False)"

definition reset_time :: "'a state \<Rightarrow> int option" where
  "reset_time s = (case rateLimitInfo s of Some info \<Rightarrow> reset info | None \<Rightarrow> None)"

text \<open>
  What follows the response. A 304 with an entry in hand writes the new expiry into that
  entry, which is the object the cache holds under the key.
\<close>

definition handleResponse ::
  "'a env \<Rightarrow> string \<Rightarrow> 'a CacheEntry option \<Rightarrow> 'a response \<Rightarrow> 'a state \<Rightarrow> (exn + 'a) \<times> 'a state" where
  "handleResponse env cacheKey cached response s2 =
     (let s3 = updateRateLimit (headers response) s2 in
      case (if status response = 304 then cached else None) of
        Some e \<Rightarrow>
          (case dateNow env s3 of
             (now, s4) \<Rightarrow>
               (Inr (data e),
                s4\<lparr>cache := (cache s4)(cacheKey \<mapsto> e\<lparr>expiresAt := now + cacheExpiry env\<rparr>)\<rparr>))
      | None \<Rightarrow>
          if \<not> ok response then
            (if status response = 403 \<and> quota_is_zero s3
             then (Inl (RateLimitExceeded (reset_time s3)), s3)
             else (Inl (GitHubApiError (status response) (statusText response)), s3))
          else
            (case json response of
               None \<Rightarrow> (Inl BodyRejected, s3)
             | Some d \<Rightarrow>
                 (case dateNow env s3 of
                    (now, s4) \<Rightarrow>
                      (Inr d,
                       s4\<lparr>cache := (cache s4)(cacheKey \<mapsto>
                              \<lparr>data = d, expiresAt = now + cacheExpiry env,
                               etag = (case headers response ''etag'' of
                                         Some e \<Rightarrow> if e \<noteq> [] then Some e else None
                                       | None \<Rightarrow> None)\<rparr>)\<rparr>))))"

text \<open>The request, conditional when the entry in hand holds a validator token.\<close>

definition refetch ::
  "'a env \<Rightarrow> string \<Rightarrow> string \<Rightarrow> 'a CacheEntry option \<Rightarrow> 'a state \<Rightarrow> (exn + 'a) \<times> 'a state" where
  "refetch env url cacheKey cached s1 =
     (case fetch env \<lparr>req_url = url,
                       req_headers = getHeaders env (case cached of Some e \<Rightarrow> etag e | None \<Rightarrow> None)\<rparr> s1 of
        (Inl err, s2) \<Rightarrow> (Inl err, s2)
      | (Inr response, s2) \<Rightarrow> handleResponse env cacheKey cached response s2)"

text \<open>
  The cache test reads the clock only when there is an entry (\<^verbatim>\<open>&&\<close> short-circuits).
\<close>

definition fetchWithCache ::
  "'a env \<Rightarrow> string \<Rightarrow> string \<Rightarrow> 'a state \<Rightarrow> (exn + 'a) \<times> 'a state" where
  "fetchWithCache env url cacheKey s =
     (case cache s cacheKey of
        None \<Rightarrow> refetch env url cacheKey None s
      | Some e \<Rightarrow>
          (case dateNow env s of
             (now, s1) \<Rightarrow>
               if expiresAt e > now then (Inr (data e), s1)
               else refetch env url cacheKey (Some e) s1))"

definition GITHUB_API_BASE :: string where
  "GITHUB_API_BASE = ''https://api.github.com''"

definition fetchRepositoryTree ::
  "RepositoryTree env \<Rightarrow> string \<Rightarrow> RepositoryTree state \<Rightarrow> (exn + RepositoryTree) \<times> RepositoryTree state" where
  "fetchRepositoryTree env repo s =
     fetchWithCache env (GITHUB_API_BASE @ ''/repos/'' @ repo @ ''/git/trees/main?recursive=1'')
       (''tree:'' @ repo) s"

definition downloadFile :: "'a env \<Rightarrow> string \<Rightarrow> string \<Rightarrow> 'a state \<Rightarrow> (exn + string) \<times> 'a state" where
  "downloadFile env repo p s =
     (case fetch env \<lparr>req_url = ''https://raw.githubusercontent.com/'' @ repo @ ''/main/'' @ p,
                       req_headers = []\<rparr> s of
        (Inl err, s1) \<Rightarrow> (Inl err, s1)
      | (Inr response, s1) \<Rightarrow>
          if \<not> ok response then (Inl (DownloadFailed p), s1)
          else (case raw_body response of
                  None \<Rightarrow> (Inl BodyRejected, s1)
                | Some bytes \<Rightarrow> (Inr bytes, s1)))"

section \<open>The installer (SkillInstaller)\<close>

subsection \<open>The file system calls\<close>

text \<open>
  The calls of \<^verbatim>\<open>fs/promises\<close> the installer makes, with the failures that come from what
  is at the path (failures of permission or of the device are not modelled).
  \<^verbatim>\<open>mkdir(p, {recursive: true})\<close> succeeds on a directory that is there, fails with EEXIST
  on a regular file and with ENOTDIR below one, and creates the missing ancestors.
\<close>

function mkdir_recursive :: "filesystem \<Rightarrow> path \<Rightarrow> errno + filesystem" where
  "mkdir_recursive d p =
     (case d p of
        Some Dir \<Rightarrow> Inr d
      | Some (RegularFile x) \<Rightarrow> Inl EEXIST
      | None \<Rightarrow>
          if p = [] then Inr (d([] \<mapsto> Dir))
          else (case mkdir_recursive d (butlast p) of
                  Inl e \<Rightarrow> Inl (if e = EEXIST then ENOTDIR else e)
                | Inr d' \<Rightarrow> Inr (d'(p \<mapsto> Dir))))"
  by pat_completeness auto
termination
  by (relation "measure (\<lambda>(d, p). length p)") auto

declare mkdir_recursive.simps [simp del]

text \<open>\<^verbatim>\<open>writeFile(p, data)\<close> creates or replaces a regular file in a directory that is there.\<close>

definition writeFile :: "filesystem \<Rightarrow> path \<Rightarrow> file_data \<Rightarrow> errno + filesystem" where
  "writeFile d p x =
     (if p = [] then Inl EISDIR
      else (case d (butlast p) of
              None \<Rightarrow> Inl ENOENT
            | Some (RegularFile y) \<Rightarrow> Inl ENOTDIR
            | Some Dir \<Rightarrow>
                (case d p of
                   Some Dir \<Rightarrow> Inl EISDIR
                 | _ \<Rightarrow> Inr (d(p \<mapsto> RegularFile x)))))"

text \<open>\<^verbatim>\<open>rm(p, {recursive: true, force: true})\<close> removes \<open>p\<close> and all below it, if anything.\<close>

definition rm_recursive :: "filesystem \<Rightarrow> path \<Rightarrow> filesystem" where
  "rm_recursive d p = (\<lambda>q. if prefix p q then None else d q)"

text \<open>\<^verbatim>\<open>access(p)\<close> resolves when something is at \<open>p\<close>.\<close>

definition access :: "filesystem \<Rightarrow> path \<Rightarrow> bool" where
  "access d p = (d p \<noteq> None)"

text \<open>
  \<^verbatim>\<open>path.join(base, rel)\<close> for a resolved \<open>base\<close>: the components of \<open>rel\<close> are applied in
  turn, empty ones and \<^verbatim>\<open>.\<close> dropped, \<^verbatim>\<open>..\<close> stepping up (the root is its own parent).
\<close>

definition join_component :: "path \<Rightarrow> string \<Rightarrow> path" where
  "join_component p c =
     (if c = [] \<or> c = ''.'' then p else if c = ''..'' then butlast p else p @ [c])"

definition path_join :: "path \<Rightarrow> string \<Rightarrow> path" where
  "path_join base rel = foldl join_component base (split_on CHR ''/'' rel)"

subsection \<open>Paths of the installer\<close>

text \<open>The fields of a bundle the installer reads.\<close>

record Skill =
  skill_id :: string
  skill_name :: string
  skill_repository :: string
  skill_path :: string
  skill_files :: "SkillFile list"
  skill_version :: "string option"

definition getInstallPath :: "'a env \<Rightarrow> path" where
  "getInstallPath env =
     (if customPath env \<noteq> []
      then path_join (if startsWith (customPath env) ''/'' then [] else cwd env) (customPath env)
      else homedir env @ [''.gemini'', ''antigravity'', ''skills''])"

text \<open>\<^verbatim>\<open>s.replace(/\s+/g, '-')\<close>: every maximal run of white space becomes one hyphen.\<close>

function collapse_spaces :: "string \<Rightarrow> string" where
  "collapse_spaces [] = []"
| "collapse_spaces (c # cs) =
     (if is_space c then CHR ''-'' # collapse_spaces (dropWhile is_space cs)
      else c # collapse_spaces cs)"
  by pat_completeness auto
termination
  by (relation "measure length") (auto simp: length_dropWhile_le less_Suc_eq_le)

definition getSkillLocalPath :: "'a env \<Rightarrow> Skill \<Rightarrow> path" where
  "getSkillLocalPath env skill =
     path_join (getInstallPath env) (collapse_spaces (toLowerCase (skill_name skill)))"

definition ensureInstallDirectory :: "'a env \<Rightarrow> 'a state \<Rightarrow> (exn + unit) \<times> 'a state" where
  "ensureInstallDirectory env s =
     (case mkdir_recursive (disk s) (getInstallPath env) of
        Inl e \<Rightarrow> if e \<noteq> EEXIST then (Inl (FsError e), s) else (Inr (), s)
      | Inr d \<Rightarrow> (Inr (), s\<lparr>disk := d\<rparr>))"

text \<open>\<^verbatim>\<open>stat\<close> and \<^verbatim>\<open>isDirectory()\<close>; any failure of \<^verbatim>\<open>stat\<close> reads as not installed.\<close>

definition isInstalled :: "'a env \<Rightarrow> Skill \<Rightarrow> 'a state \<Rightarrow> bool" where
  "isInstalled env skill s = (disk s (getSkillLocalPath env skill) = Some Dir)"

subsection \<open>Downloading\<close>

text \<open>
  The progress callback is optional and is taken as absent; what is written to the console
  is left out. The loop over the direct files: a failed download or write is caught and the loop goes
  on with the next file.
\<close>

fun downloadFiles ::
  "'a env \<Rightarrow> string \<Rightarrow> path \<Rightarrow> SkillFile list \<Rightarrow> 'a state \<Rightarrow> 'a state" where
  "downloadFiles env repo localDir [] s = s"
| "downloadFiles env repo localDir (file # files) s =
     (case downloadFile env repo (file_path file) s of
        (Inl e, s1) \<Rightarrow> downloadFiles env repo localDir files s1
      | (Inr content, s1) \<Rightarrow>
          (case writeFile (disk s1) (path_join localDir (file_name file)) (Buffer content) of
             Inl e \<Rightarrow> downloadFiles env repo localDir files s1
           | Inr d \<Rightarrow> downloadFiles env repo localDir files (s1\<lparr>disk := d\<rparr>)))"

text \<open>
  \<^verbatim>\<open>downloadDirectory\<close> fetches the tree again at every level, so its depth follows what the
  remote side answers; the first argument bounds the depth of the recursion, and \<open>None\<close>
  is a run that needs more. Nothing is caught here: the first failure ends the mirroring.
\<close>

fun downloadDirectory ::
    "nat \<Rightarrow> RepositoryTree env \<Rightarrow> string \<Rightarrow> string \<Rightarrow> path \<Rightarrow> RepositoryTree state
      \<Rightarrow> ((exn + unit) \<times> RepositoryTree state) option"
  and downloadNodes ::
    "nat \<Rightarrow> RepositoryTree env \<Rightarrow> string \<Rightarrow> string \<Rightarrow> path \<Rightarrow> TreeNode list \<Rightarrow> RepositoryTree state
      \<Rightarrow> ((exn + unit) \<times> RepositoryTree state) option" where
  "downloadDirectory 0 env repo remotePath localDir s = None"
| "downloadDirectory (Suc n) env repo remotePath localDir s =
     (case mkdir_recursive (disk s) localDir of
        Inl e \<Rightarrow> Some (Inl (FsError e), s)
      | Inr d \<Rightarrow>
          (case fetchRepositoryTree env repo (s\<lparr>disk := d\<rparr>) of
             (Inl e, s1) \<Rightarrow> Some (Inl e, s1)
           | (Inr t, s1) \<Rightarrow> downloadNodes n env repo (remotePath @ ''/'') localDir (tree t) s1))"
| "downloadNodes n env repo pfx localDir [] s = Some (Inr (), s)"
| "downloadNodes n env repo pfx localDir (node # nodes) s =
     (if startsWith (node_path node) pfx then
        (if includes_str (drop (length pfx) (node_path node)) ''/''
         then downloadNodes n env repo pfx localDir nodes s
         else
           (case node_type node of
              Blob \<Rightarrow>
                (case downloadFile env repo (node_path node) s of
                   (Inl e, s1) \<Rightarrow> Some (Inl e, s1)
                 | (Inr content, s1) \<Rightarrow>
                     (case writeFile (disk s1)
                             (path_join localDir (drop (length pfx) (node_path node)))
                             (Buffer content) of
                        Inl e \<Rightarrow> Some (Inl (FsError e), s1)
                      | Inr d \<Rightarrow> downloadNodes n env repo pfx localDir nodes (s1\<lparr>disk := d\<rparr>)))
            | Tree \<Rightarrow>
                (case downloadDirectory n env repo (node_path node)
                        (path_join localDir (drop (length pfx) (node_path node))) s of
                   None \<Rightarrow> None
                 | Some (Inl e, s1) \<Rightarrow> Some (Inl e, s1)
                 | Some (Inr u, s1) \<Rightarrow> downloadNodes n env repo pfx localDir nodes s1)))
      else downloadNodes n env repo pfx localDir nodes s)"

text \<open>The loop over the direct subdirectories.\<close>

fun downloadDirs ::
  "nat \<Rightarrow> RepositoryTree env \<Rightarrow> string \<Rightarrow> path \<Rightarrow> SkillFile list \<Rightarrow> RepositoryTree state
    \<Rightarrow> ((exn + unit) \<times> RepositoryTree state) option" where
  "downloadDirs fuel env repo localDir [] s = Some (Inr (), s)"
| "downloadDirs fuel env repo localDir (dir # dirs) s =
     (case downloadDirectory fuel env repo (file_path dir) (path_join localDir (file_name dir)) s of
        None \<Rightarrow> None
      | Some (Inl e, s1) \<Rightarrow> Some (Inl e, s1)
      | Some (Inr u, s1) \<Rightarrow> downloadDirs fuel env repo localDir dirs s1)"

text \<open>
  Creating the bundle's directory and filling it: the part of \<^verbatim>\<open>install\<close> between the
  test for an installed bundle and the test for the manifest.
\<close>

definition downloadPhase ::
  "nat \<Rightarrow> RepositoryTree env \<Rightarrow> Skill \<Rightarrow> path \<Rightarrow> RepositoryTree state
    \<Rightarrow> ((exn + unit) \<times> RepositoryTree state) option" where
  "downloadPhase fuel env skill localDir s =
     (case mkdir_recursive (disk s) localDir of
        Inl e \<Rightarrow> Some (Inl (FsError e), s)
      | Inr d \<Rightarrow>
          downloadDirs fuel env (skill_repository skill) localDir
            (filter (\<lambda>f. file_type f = Directory) (skill_files skill))
            (downloadFiles env (skill_repository skill) localDir
               (filter (\<lambda>f. file_type f = File) (skill_files skill)) (s\<lparr>disk := d\<rparr>)))"

definition saveInstallMetadata ::
  "'a env \<Rightarrow> Skill \<Rightarrow> path \<Rightarrow> 'a state \<Rightarrow> (exn + unit) \<times> 'a state" where
  "saveInstallMetadata env skill localDir s =
     (case dateNow env s of
        (now, s1) \<Rightarrow>
          (case writeFile (disk s1) (path_join localDir ''.skill-manager.json'')
                  (MetadataJson \<lparr>meta_id = skill_id skill, meta_name = skill_name skill,
                     meta_repository = skill_repository skill, meta_path = skill_path skill,
                     meta_installedAt = now, meta_version = skill_version skill\<rparr>) of
             Inl e \<Rightarrow> (Inl (FsError e), s1)
           | Inr d \<Rightarrow> (Inr (), s1\<lparr>disk := d\<rparr>)))"

subsection \<open>install and uninstall\<close>

text \<open>
  The \<^verbatim>\<open>error\<close> of an install result: the two messages \<^verbatim>\<open>install\<close> writes itself
  (\<^verbatim>\<open>Skill is already installed\<close>, \<^verbatim>\<open>SKILL.md not found in skill directory\<close>) and the
  message of whatever was thrown and caught.
\<close>

datatype install_error = AlreadyInstalled | ManifestNotFound | Thrown exn

record InstallResult =
  res_success :: bool
  res_skill :: Skill
  res_localPath :: "path option"
  res_error :: "install_error option"

definition install ::
  "nat \<Rightarrow> RepositoryTree env \<Rightarrow> Skill \<Rightarrow> RepositoryTree state
    \<Rightarrow> (InstallResult \<times> RepositoryTree state) option" where
  "install fuel env skill s =
     (case ensureInstallDirectory env s of
        (Inl e, s1) \<Rightarrow>
          Some (\<lparr>res_success = False, res_skill = skill, res_localPath = None,
                  res_error = Some (Thrown e)\<rparr>, s1)
      | (Inr u, s1) \<Rightarrow>
          if isInstalled env skill s1 then
            Some (\<lparr>res_success = False, res_skill = skill,
                    res_localPath = Some (getSkillLocalPath env skill),
                    res_error = Some AlreadyInstalled\<rparr>, s1)
          else
            (case downloadPhase fuel env skill (getSkillLocalPath env skill) s1 of
               None \<Rightarrow> None
             | Some (Inl e, s4) \<Rightarrow>
                 Some (\<lparr>res_success = False, res_skill = skill, res_localPath = None,
                         res_error = Some (Thrown e)\<rparr>, s4)
             | Some (Inr u, s4) \<Rightarrow>
                 if \<not> access (disk s4) (path_join (getSkillLocalPath env skill) ''SKILL.md'') then
                   Some (\<lparr>res_success = False, res_skill = skill, res_localPath = None,
                           res_error = Some ManifestNotFound\<rparr>,
                         s4\<lparr>disk := rm_recursive (disk s4) (getSkillLocalPath env skill)\<rparr>)
                 else
                   (case saveInstallMetadata env skill (getSkillLocalPath env skill) s4 of
                      (Inl e, s5) \<Rightarrow>
                        Some (\<lparr>res_success = False, res_skill = skill, res_localPath = None,
                                res_error = Some (Thrown e)\<rparr>, s5)
                    | (Inr u, s5) \<Rightarrow>
                        Some (\<lparr>res_success = True, res_skill = skill,
                                res_localPath = Some (getSkillLocalPath env skill),
                                res_error = None\<rparr>, s5))))"

definition uninstall :: "'a env \<Rightarrow> Skill \<Rightarrow> 'a state \<Rightarrow> (exn + unit) \<times> 'a state" where
  "uninstall env skill s =
     (if \<not> isInstalled env skill s then (Inl (NotInstalled (skill_name skill)), s)
      else (Inr (), s\<lparr>disk := rm_recursive (disk s) (getSkillLocalPath env skill)\<rparr>))"

text \<open>
  One file system grows into another when nothing that was there is gone and every
  directory is still a directory: what a run that deletes nothing does to the disk.
\<close>

definition fs_grows :: "filesystem \<Rightarrow> filesystem \<Rightarrow> bool" where
  "fs_grows d d' = (\<forall>p. (d p \<noteq> None \<longrightarrow> d' p \<noteq> None) \<and> (d p = Some Dir \<longrightarrow> d' p = Some Dir))"

section \<open>Messages and samples\<close>

subsection \<open>The two messages fetchWithCache throws\<close>

text \<open>
  \<^verbatim>\<open>RateLimitExceeded\<close> stands for the first message and \<^verbatim>\<open>GitHubApiError\<close> for the second;
  the reset time and the status are given as the text the template puts in.
\<close>

definition rateLimitMessage :: "string \<Rightarrow> string" where
  "rateLimitMessage resetText = ''GitHub API rate limit exceeded. Resets at '' @ resetText"

definition apiErrorMessage :: "string \<Rightarrow> string \<Rightarrow> string" where
  "apiErrorMessage statusDigits statusTxt = ''GitHub API error: '' @ statusDigits @ '' '' @ statusTxt"

subsection \<open>Sample environments and states\<close>

definition env304 :: "nat env" where
  "env304 = \<lparr>net = (\<lambda>log req. Inr \<lparr>status = 304, statusText = ''Not Modified'', headers = Map.empty,
                                     json = None, raw_body = None\<rparr>),
            clock = (\<lambda>n. 1000 + int n), githubToken = [], cacheExpirySeconds = 3600,
            customPath = [], homedir = [''home''], cwd = []\<rparr>"

definition state_cached :: "int \<Rightarrow> nat state" where
  "state_cached expiry =
     \<lparr>cache = [''tree:acme/demo'' \<mapsto> \<lparr>data = 7, expiresAt = expiry, etag = Some ''W/1''\<rparr>],
      rateLimitInfo = None, disk = Map.empty, requests = [], ticks = 0\<rparr>"

definition quota_headers :: "string \<rightharpoonup> string" where
  "quota_headers = [''x-ratelimit-limit'' \<mapsto> ''60'', ''x-ratelimit-remaining'' \<mapsto> ''0'',
                    ''x-ratelimit-reset'' \<mapsto> ''1700000000'']"

definition env_status :: "nat \<Rightarrow> string \<Rightarrow> nat env" where
  "env_status code txt =
     \<lparr>net = (\<lambda>log req. Inr \<lparr>status = code, statusText = txt, headers = quota_headers,
                             json = None, raw_body = None\<rparr>),
      clock = (\<lambda>n. 1000 + int n), githubToken = [], cacheExpirySeconds = 3600,
      customPath = [], homedir = [''home''], cwd = []\<rparr>"

definition state_empty :: "nat state" where
  "state_empty = \<lparr>cache = Map.empty, rateLimitInfo = None, disk = Map.empty, requests = [], ticks = 0\<rparr>"

text \<open>A remote side that serves the manifest and the read-me of bundle \<open>a\<close> and nothing else.\<close>

definition env_demo :: "RepositoryTree env" where
  "env_demo =
     \<lparr>net = (\<lambda>log req.
         if req_url req = ''https://raw.githubusercontent.com/acme/demo/main/a/SKILL.md''
            \<or> req_url req = ''https://raw.githubusercontent.com/acme/demo/main/a/README.md''
         then Inr \<lparr>status = 200, statusText = ''OK'', headers = Map.empty, json = None,
                   raw_body = Some ''text''\<rparr>
         else Inr \<lparr>status = 404, statusText = ''Not Found'', headers = Map.empty, json = None,
                   raw_body = None\<rparr>),
      clock = (\<lambda>n. 1000 + int n), githubToken = [], cacheExpirySeconds = 3600,
      customPath = ''/s'', homedir = [''home''], cwd = []\<rparr>"

definition skill_demo :: "SkillFile list \<Rightarrow> Skill" where
  "skill_demo fs =
     \<lparr>skill_id = ''acme/demo/a'', skill_name = ''My Skill'', skill_repository = ''acme/demo'',
      skill_path = ''a'', skill_files = fs, skill_version = None\<rparr>"

definition file_demo :: "string \<Rightarrow> SkillFile" where
  "file_demo n = \<lparr>file_name = n, file_path = ''a/'' @ n, file_type = File, file_sha = None\<rparr>"

definition state_demo :: "filesystem \<Rightarrow> RepositoryTree state" where
  "state_demo d = \<lparr>cache = Map.empty, rateLimitInfo = None, disk = d, requests = [], ticks = 0\<rparr>"

definition disk_installed :: filesystem where
  "disk_installed = [[] \<mapsto> Dir, [''s''] \<mapsto> Dir, [''s'', ''my-skill''] \<mapsto> Dir,
                     [''s'', ''my-skill'', ''SKILL.md''] \<mapsto> RegularFile (Buffer ''text'')]"

text \<open>
  A remote side that serves a tree with a subdirectory \<open>a/lib\<close> and the one file below it,
  and not the manifest of bundle \<open>a\<close>.
\<close>

definition tree_demo :: RepositoryTree where
  "tree_demo =
     \<lparr>tree = [\<lparr>node_path = ''a/SKILL.md'', node_type = Blob, node_sha = ''1''\<rparr>,
              \<lparr>node_path = ''a/lib'', node_type = Tree, node_sha = ''2''\<rparr>,
              \<lparr>node_path = ''a/lib/SKILL.md'', node_type = Blob, node_sha = ''3''\<rparr>],
      truncated = False\<rparr>"

definition env_tree :: "RepositoryTree env" where
  "env_tree =
     \<lparr>net = (\<lambda>log req.
         if req_url req = ''https://api.github.com/repos/acme/demo/git/trees/main?recursive=1''
         then Inr \<lparr>status = 200, statusText = ''OK'', headers = Map.empty, json = Some tree_demo,
                   raw_body = None\<rparr>
         else if req_url req = ''https://raw.githubusercontent.com/acme/demo/main/a/lib/SKILL.md''
         then Inr \<lparr>status = 200, statusText = ''OK'', headers = Map.empty, json = None,
                   raw_body = Some ''text''\<rparr>
         else Inr \<lparr>status = 404, statusText = ''Not Found'', headers = Map.empty, json = None,
                   raw_body = None\<rparr>),
      clock = (\<lambda>n. 1000 + int n), githubToken = [], cacheExpirySeconds = 3600,
      customPath = ''/s'', homedir = [''home''], cwd = []\<rparr>"

definition dir_demo :: "string \<Rightarrow> SkillFile" where
  "dir_demo n = \<lparr>file_name = n, file_path = ''a/'' @ n, file_type = Directory, file_sha = None\<rparr>"

section \<open>The fallback description\<close>

lemma descriptionLoop_started:
  "acc \<noteq> [] \<Longrightarrow> length acc < 3 \<Longrightarrow>
   descriptionLoop ls acc =
     acc @ take (3 - length acc) (takeWhile (\<lambda>t. \<not> is_stop t) (filter (\<lambda>t. \<not> is_heading t) (map trim ls)))"
proof (induction ls arbitrary: acc)
  case Nil
  then show ?case by simp
next
  case (Cons line rest)
  show ?case
  proof (cases "is_heading (trim line)")
    case True
    with Cons show ?thesis by simp
  next
    case nh: False
    show ?thesis
    proof (cases "is_stop (trim line)")
      case True
      with nh Cons.prems show ?thesis by simp
    next
      case ns: False
      show ?thesis
      proof (cases "length (acc @ [trim line]) \<ge> 3")
        case True
        with Cons.prems have "length acc = 2" by simp
        with nh ns True show ?thesis by simp
      next
        case False
        then have l: "length (acc @ [trim line]) < 3" by simp
        have "descriptionLoop rest (acc @ [trim line]) =
            (acc @ [trim line]) @ take (3 - length (acc @ [trim line]))
               (takeWhile (\<lambda>t. \<not> is_stop t) (filter (\<lambda>t. \<not> is_heading t) (map trim rest)))"
          by (rule Cons.IH) (use l in auto)
        moreover have "3 - length acc = Suc (3 - length (acc @ [trim line]))" using l by simp
        ultimately show ?thesis using nh ns False by (simp add: Let_def del: length_append)
      qed
    qed
  qed
qed

lemma descriptionLoop_fallback_lines:
  "descriptionLoop ls [] = fallback_lines (map trim ls)"
proof (induction ls)
  case Nil
  then show ?case by (simp add: fallback_lines_def)
next
  case (Cons line rest)
  show ?case
  proof (cases "is_heading (trim line)")
    case True
    with Cons show ?thesis by (simp add: fallback_lines_def)
  next
    case nh: False
    show ?thesis
    proof (cases "is_stop (trim line)")
      case True
      with nh Cons show ?thesis by (simp add: fallback_lines_def)
    next
      case ns: False
      have "descriptionLoop rest [trim line] =
           [trim line] @ take (3 - length [trim line])
             (takeWhile (\<lambda>t. \<not> is_stop t) (filter (\<lambda>t. \<not> is_heading t) (map trim rest)))"
        by (rule descriptionLoop_started) auto
      moreover have "3 - length [trim line] = 2" by simp
      moreover have "take 3 (trim line # xs) = trim line # take 2 xs" for xs
        by (simp add: numeral_3_eq_3 numeral_2_eq_2)
      ultimately show ?thesis using nh ns by (simp add: fallback_lines_def)
    qed
  qed
qed

lemma extractDescription_eq:
  "extractDescription body = take 300 (join '' '' (fallback_lines (map trim (split_on NL (trim body)))))"
  by (simp add: extractDescription_def descriptionLoop_fallback_lines)

subsection \<open>Trimming a text and trimming its lines\<close>

lemma split_on_not_Nil [simp]: "split_on sep s \<noteq> []"
  by (induction s) (auto split: list.splits)

lemma trim_space_Cons: "is_space c \<Longrightarrow> trim (c # l) = trim l"
  by (simp add: trim_def ltrim_def)

lemma trim_Nil [simp]: "trim [] = []"
  by (simp add: trim_def ltrim_def)

lemma is_space_NL [simp]: "is_space NL"
  by (simp add: is_space_def NL_def)

lemma lines_ltrim:
  "\<exists>n. map trim (split_on NL s) = replicate n [] @ map trim (split_on NL (ltrim s))"
proof (induction s)
  case Nil
  have "map trim (split_on NL []) = replicate 0 [] @ map trim (split_on NL (ltrim []))"
    by (simp add: ltrim_def)
  then show ?case by blast
next
  case (Cons c cs)
  then obtain n where n: "map trim (split_on NL cs) = replicate n [] @ map trim (split_on NL (ltrim cs))"
    by blast
  show ?case
  proof (cases "is_space c")
    case False
    then have "map trim (split_on NL (c # cs)) = replicate 0 [] @ map trim (split_on NL (ltrim (c # cs)))"
      by (simp add: ltrim_def)
    then show ?thesis by blast
  next
    case True
    then have lt: "ltrim (c # cs) = ltrim cs" by (simp add: ltrim_def)
    show ?thesis
    proof (cases "c = NL")
      case True
      then have "map trim (split_on NL (c # cs)) = replicate (Suc n) [] @ map trim (split_on NL (ltrim (c # cs)))"
        using n lt by simp
      then show ?thesis by blast
    next
      case False
      obtain l ls where sp: "split_on NL cs = l # ls" by (cases "split_on NL cs") auto
      have "map trim (split_on NL (c # cs)) = map trim (split_on NL cs)"
        using False sp \<open>is_space c\<close> by (simp add: trim_space_Cons)
      then show ?thesis using n lt by auto
    qed
  qed
qed

lemma split_on_snoc:
  "split_on sep (s @ [c]) =
     (if c = sep then split_on sep s @ [[]]
      else butlast (split_on sep s) @ [last (split_on sep s) @ [c]])"
proof (induction s)
  case Nil
  then show ?case by simp
next
  case (Cons a s)
  obtain l ls where sp: "split_on sep s = l # ls" by (cases "split_on sep s") auto
  show ?case
  proof (cases "c = sep")
    case True
    with Cons sp show ?thesis by (auto split: list.splits)
  next
    case False
    with Cons sp show ?thesis
      by (cases "a = sep"; cases ls) (auto split: list.splits)
  qed
qed

lemma split_on_rev: "split_on sep (rev s) = rev (map rev (split_on sep s))"
proof (induction s)
  case Nil
  then show ?case by simp
next
  case (Cons a s)
  obtain l ls where sp: "split_on sep s = l # ls" by (cases "split_on sep s") auto
  have ne: "rev (map rev (split_on sep s)) \<noteq> []" by simp
  show ?case
  proof (cases "a = sep")
    case True
    then show ?thesis using Cons by (simp add: split_on_snoc)
  next
    case False
    have "butlast (rev (map rev (l # ls))) = rev (map rev ls)" by simp
    moreover have "last (rev (map rev (l # ls))) = rev l" by simp
    ultimately show ?thesis using False Cons sp by (simp add: split_on_snoc)
  qed
qed

lemma rtrim_Cons:
  "rev (dropWhile P (rev (x # xs))) =
     (if \<forall>y \<in> set (x # xs). P y then [] else x # rev (dropWhile P (rev xs)))"
  by (auto simp: dropWhile_append)

lemma ltrim_rtrim_commute:
  "rev (dropWhile P (rev (dropWhile P xs))) = dropWhile P (rev (dropWhile P (rev xs)))"
proof (induction xs)
  case Nil
  then show ?case by simp
next
  case (Cons x xs)
  show ?case
  proof (cases "P x")
    case True
    then show ?thesis using Cons by (simp only: rtrim_Cons) (auto simp: dropWhile_append dest: set_dropWhileD)
  next
    case False
    then show ?thesis by (auto simp: dropWhile_append)
  qed
qed

lemma trim_rev: "trim (rev l) = rev (trim l)"
  unfolding trim_def ltrim_def using ltrim_rtrim_commute[of is_space "rev l"] by simp

lemma lines_trim:
  "\<exists>m n. map trim (split_on NL s) = replicate m [] @ map trim (split_on NL (trim s)) @ replicate n []"
proof -
  obtain m where m: "map trim (split_on NL s) = replicate m [] @ map trim (split_on NL (ltrim s))"
    using lines_ltrim by blast
  obtain n where n: "map trim (split_on NL (rev (ltrim s))) =
      replicate n [] @ map trim (split_on NL (ltrim (rev (ltrim s))))"
    using lines_ltrim by blast
  have r: "map trim (split_on NL (rev t)) = rev (map rev (map trim (split_on NL t)))" for t
    by (simp add: split_on_rev trim_rev rev_map)
  have "rev (map rev (map trim (split_on NL (ltrim s)))) =
      replicate n [] @ map trim (split_on NL (ltrim (rev (ltrim s))))"
    using n r by simp
  then have "map rev (map trim (split_on NL (ltrim s))) =
      rev (map trim (split_on NL (ltrim (rev (ltrim s))))) @ replicate n []"
    by (metis rev_append rev_replicate rev_rev_ident)
  then have "map rev (map rev (map trim (split_on NL (ltrim s)))) =
      map rev (rev (map trim (split_on NL (ltrim (rev (ltrim s)))))) @ replicate n []"
    by (metis map_append map_replicate rev.simps(1))
  moreover have "map rev (rev (map trim (split_on NL (ltrim (rev (ltrim s)))))) =
      map trim (split_on NL (trim s))"
    using r[of "ltrim (rev (ltrim s))"] by (simp add: trim_def rev_map)
  ultimately have "map trim (split_on NL (ltrim s)) = map trim (split_on NL (trim s)) @ replicate n []"
    by (simp add: comp_def)
  with m show ?thesis by auto
qed

lemma text_line_survives_trim:
  assumes "l \<in> set (split_on NL s)" "is_text (trim l)"
  shows "\<exists>t \<in> set (map trim (split_on NL (trim s))). is_text t"
proof -
  obtain m n where e: "map trim (split_on NL s) =
      replicate m [] @ map trim (split_on NL (trim s)) @ replicate n []"
    using lines_trim by blast
  have "trim l \<in> set (map trim (split_on NL s))" using assms(1) by auto
  moreover have "trim l \<noteq> []" using assms(2) by (auto simp: is_text_def is_stop_def)
  ultimately have "trim l \<in> set (map trim (split_on NL (trim s)))"
    unfolding e by auto
  with assms(2) show ?thesis by blast
qed

lemma fallback_lines_nonempty:
  assumes "\<exists>t \<in> set ts. is_text t"
  shows "fallback_lines ts \<noteq> [] \<and> hd (fallback_lines ts) \<noteq> []"
proof -
  let ?f = "filter (\<lambda>t. \<not> is_heading t) ts"
  from assms obtain t where t: "t \<in> set ?f" "\<not> is_stop t" by (auto simp: is_text_def)
  then have d: "dropWhile is_stop ?f \<noteq> []" by (metis dropWhile_eq_Nil_conv)
  then obtain x xs where x: "dropWhile is_stop ?f = x # xs" by (cases "dropWhile is_stop ?f") auto
  then have nx: "\<not> is_stop x" by (metis hd_dropWhile list.sel(1) d)
  then have "fallback_lines ts = x # take 2 (takeWhile (\<lambda>t. \<not> is_stop t) xs)"
    by (simp add: fallback_lines_def x numeral_3_eq_3 numeral_2_eq_2)
  with nx show ?thesis by (auto simp: is_stop_def)
qed

lemma join_hd_nonempty: "xs \<noteq> [] \<Longrightarrow> hd xs \<noteq> [] \<Longrightarrow> join sep xs \<noteq> []"
  by (induction sep xs rule: join.induct) auto

lemma extractDescription_nonempty:
  assumes "\<exists>l \<in> set (split_on NL body). is_text (trim l)"
  shows "extractDescription body \<noteq> []"
proof -
  from assms obtain l where "l \<in> set (split_on NL body)" "is_text (trim l)" by blast
  then have "\<exists>t \<in> set (map trim (split_on NL (trim body))). is_text t"
    by (rule text_line_survives_trim)
  then have "fallback_lines (map trim (split_on NL (trim body))) \<noteq> []
      \<and> hd (fallback_lines (map trim (split_on NL (trim body)))) \<noteq> []"
    by (rule fallback_lines_nonempty)
  then have "join '' '' (fallback_lines (map trim (split_on NL (trim body)))) \<noteq> []"
    by (simp add: join_hd_nonempty)
  then show ?thesis by (simp add: extractDescription_eq)
qed

text \<open>
  C6 (as amended): a manifest text with no header block parses to the placeholder name and
  to the fallback description: the first up to three text lines of the trimmed text, joined
  with single spaces and cut to 300 characters. The description is at most 300 characters
  long, and it is non-empty whenever some line of the text is a text line, that is
  non-blank, not a heading and not a fence line.
\<close>

theorem parseSkillMd_no_header:
  assumes "extractFrontmatter content = None"
  shows "name (parseSkillMd content) = Str ''Unknown Skill''
    \<and> description (parseSkillMd content) =
        Str (take 300 (join '' '' (fallback_lines (map trim (split_on NL (trim content))))))
    \<and> length (to_js_string (description (parseSkillMd content))) \<le> 300
    \<and> ((\<exists>l \<in> set (split_on NL content). is_text (trim l)) \<longrightarrow>
          description (parseSkillMd content) \<noteq> Str [])"
  using assms extractDescription_nonempty[of content]
  by (simp add: parseSkillMd_def extractDescription_eq)


theorem parseSkillMd_no_header_witness:
  "extractFrontmatter (''# Title'' @ [NL, NL] @ ''First line of text.'' @ [NL] @ ''Second line.'') = None
   \<and> (\<exists>l \<in> set (split_on NL (''# Title'' @ [NL, NL] @ ''First line of text.'' @ [NL] @ ''Second line.'')).
          is_text (trim l))
   \<and> description (parseSkillMd (''# Title'' @ [NL, NL] @ ''First line of text.'' @ [NL] @ ''Second line.''))
       = Str ''First line of text. Second line.''
   \<and> description (parseSkillMd (''# Title'' @ [NL, NL] @ ''First line of text.'' @ [NL] @ ''Second line.''))
       \<noteq> Str []"
proof -
  let ?c = "''# Title'' @ [NL, NL] @ ''First line of text.'' @ [NL] @ ''Second line.''"
  have h: "extractFrontmatter ?c = None" by code_simp
  have t: "\<exists>l \<in> set (split_on NL ?c). is_text (trim l)" by code_simp
  have d: "take 300 (join '' '' (fallback_lines (map trim (split_on NL (trim ?c)))))
      = ''First line of text. Second line.''" by code_simp
  from parseSkillMd_no_header [OF h] t d h show ?thesis by simp
qed

text \<open>
  The claim as stated fails on a text whose only line is a fence line: that line is
  non-blank and not a heading, and the description is empty.
\<close>

theorem parseSkillMd_fence_counterexample:
  "extractFrontmatter ''```'' = None
   \<and> ''```'' \<in> set (split_on NL ''```'')
   \<and> trim ''```'' \<noteq> [] \<and> \<not> is_heading (trim ''```'')
   \<and> description (parseSkillMd ''```'') = Str []"
  by code_simp

section \<open>The parsed name\<close>

lemma parseSkillMd_name_truthy: "truthy (name (parseSkillMd content))"
  by (auto simp: parseSkillMd_def js_or_def Let_def split: option.splits prod.splits)

text \<open>
  C10: a header whose \<^verbatim>\<open>name:\<close> line has an empty value makes the header parser open a
  list under the key \<^verbatim>\<open>name\<close>; the list is truthy, so the placeholder is not substituted
  and the returned name is an (empty) array, not \<^verbatim>\<open>Unknown Skill\<close>.
\<close>

theorem parseSkillMd_empty_name_value:
  "extractFrontmatter (''---'' @ [NL] @ ''name:'' @ [NL] @ ''---'' @ [NL]) = Some (''name:'', [])
   \<and> name (parseSkillMd (''---'' @ [NL] @ ''name:'' @ [NL] @ ''---'' @ [NL])) = Arr []"
  by code_simp

theorem parseSkillMd_empty_name_value_witness:
  "name (parseSkillMd (''---'' @ [NL] @ ''name:'' @ [NL] @ ''---'' @ [NL])) \<noteq> Str ''Unknown Skill''"
  using parseSkillMd_empty_name_value by simp

section \<open>Validation\<close>

lemma validateSkill_valid_iff:
  "isValid (validateSkill m) \<longleftrightarrow> errors (validateSkill m) = []"
  by (simp add: validateSkill_def Let_def)

lemma validateSkill_errors:
  "errors (validateSkill m) =
     (if \<not> truthy (name m) \<or> name m = Str ''Unknown Skill''
      then [''Skill name is required in SKILL.md frontmatter''] else [])"
  by (simp add: validateSkill_def Let_def)

lemma validateSkill_description_warning:
  "\<not> truthy (description m) \<Longrightarrow>
     ''Skill description is recommended'' \<in> set (warnings (validateSkill m))"
  by (simp add: validateSkill_def Let_def)

lemma validateSkill_warnings_irrelevant:
  "name m = name m' \<Longrightarrow> isValid (validateSkill m) = isValid (validateSkill m')"
  by (simp add: validateSkill_def Let_def)

text \<open>
  C7: the name check is \<^verbatim>\<open>/^[\w\s-]+$/\<close>, and \<^verbatim>\<open>\w\<close> takes the underscore. A name with
  an underscore, a character that is no letter, digit, space or hyphen, gets no warning,
  against the warning's own wording.
\<close>

theorem validateSkill_underscore_no_warning:
  "CHR ''_'' \<in> set ''my_skill''
   \<and> validateSkill \<lparr>name = Str ''my_skill'', description = Str ''A skill'', category = Undefined,
        tags = Undefined, author = Undefined, version = Undefined, triggers = Undefined,
        dependencies = Undefined\<rparr>
     = \<lparr>isValid = True, errors = [], warnings = []\<rparr>"
  by code_simp

theorem validateSkill_underscore_no_warning_witness:
  "warnings (validateSkill \<lparr>name = Str ''my_skill'', description = Str ''A skill'',
        category = Undefined, tags = Undefined, author = Undefined, version = Undefined,
        triggers = Undefined, dependencies = Undefined\<rparr>) = []"
  using validateSkill_underscore_no_warning by simp

section \<open>Category inference\<close>


lemma startsWith_iff: "startsWith s p \<longleftrightarrow> (\<exists>suf. s = p @ suf)"
  unfolding startsWith_def
  by (metis append_eq_conv_conj append_take_drop_id)


lemma includes_str_iff': "includes_str s p \<longleftrightarrow> (\<exists>pre suf. s = pre @ p @ suf)"
proof (induction s)
  case Nil
  then show ?case by simp
next
  case (Cons c cs)
  show ?case
  proof
    assume "includes_str (c # cs) p"
    then consider "startsWith (c # cs) p" | "includes_str cs p" by auto
    then show "\<exists>pre suf. c # cs = pre @ p @ suf"
    proof cases
      case 1
      then obtain suf where "c # cs = p @ suf" by (auto simp: startsWith_iff)
      then have "c # cs = [] @ p @ suf" by simp
      then show ?thesis by blast
    next
      case 2
      then obtain pre suf where "cs = pre @ p @ suf" using Cons.IH by auto
      then have "c # cs = (c # pre) @ p @ suf" by simp
      then show ?thesis by blast
    qed
  next
    assume "\<exists>pre suf. c # cs = pre @ p @ suf"
    then obtain pre suf where e: "c # cs = pre @ p @ suf" by auto
    show "includes_str (c # cs) p"
    proof (cases pre)
      case Nil
      with e have "startsWith (c # cs) p" by (auto simp: startsWith_iff)
      then show ?thesis by simp
    next
      case (Cons a pre')
      with e have "cs = pre' @ p @ suf" by simp
      then have "includes_str cs p" using Cons.IH by blast
      then show ?thesis by simp
    qed
  qed
qed

lemma includes_str_iff: "includes_str s p \<longleftrightarrow> occurs p s"
  by (simp add: includes_str_iff' occurs_def)


lemma first_category_None:
  "first_category txt tbl = None \<longleftrightarrow> (\<forall>row \<in> set tbl. \<not> row_matches txt row)"
  by (induction tbl) (auto simp: row_matches_def list_ex_iff includes_str_iff split: if_splits)

lemma first_category_Some:
  "first_category txt tbl = Some c \<longleftrightarrow>
     (\<exists>i < length tbl. fst (tbl ! i) = c \<and> row_matches txt (tbl ! i)
        \<and> (\<forall>j < i. \<not> row_matches txt (tbl ! j)))"
proof (induction tbl)
  case Nil
  then show ?case by simp
next
  case (Cons row rest)
  obtain cat pats where row: "row = (cat, pats)" by (cases row)
  show ?case
  proof (cases "row_matches txt row")
    case True
    then have l: "first_category txt (row # rest) = Some cat"
      by (auto simp: row row_matches_def list_ex_iff includes_str_iff)
    show ?thesis
    proof
      assume "first_category txt (row # rest) = Some c"
      with l have "c = cat" by simp
      with True show "\<exists>i<length (row # rest). fst ((row # rest) ! i) = c \<and> row_matches txt ((row # rest) ! i)
        \<and> (\<forall>j < i. \<not> row_matches txt ((row # rest) ! j))"
        by (intro exI[of _ 0]) (simp add: row)
    next
      assume "\<exists>i<length (row # rest). fst ((row # rest) ! i) = c \<and> row_matches txt ((row # rest) ! i)
        \<and> (\<forall>j < i. \<not> row_matches txt ((row # rest) ! j))"
      then obtain i where i: "i < length (row # rest)" "fst ((row # rest) ! i) = c"
        "\<forall>j < i. \<not> row_matches txt ((row # rest) ! j)" by auto
      have "i = 0"
      proof (rule ccontr)
        assume "i \<noteq> 0"
        then have "0 < i" by simp
        with i(3) have "\<not> row_matches txt ((row # rest) ! 0)" by blast
        with True show False by simp
      qed
      with i(2) have "c = cat" by (simp add: row)
      with l show "first_category txt (row # rest) = Some c" by simp
    qed
  next
    case False
    then have l: "first_category txt (row # rest) = first_category txt rest"
      by (auto simp: row row_matches_def list_ex_iff includes_str_iff)
    show ?thesis
    proof
      assume "first_category txt (row # rest) = Some c"
      with l Cons.IH obtain i where i: "i < length rest" "fst (rest ! i) = c" "row_matches txt (rest ! i)"
        "\<forall>j < i. \<not> row_matches txt (rest ! j)" by auto
      have "\<forall>j < Suc i. \<not> row_matches txt ((row # rest) ! j)"
        using i(4) False by (auto simp: less_Suc_eq_0_disj)
      with i show "\<exists>i<length (row # rest). fst ((row # rest) ! i) = c \<and> row_matches txt ((row # rest) ! i)
        \<and> (\<forall>j < i. \<not> row_matches txt ((row # rest) ! j))"
        by (intro exI[of _ "Suc i"]) simp
    next
      assume "\<exists>i<length (row # rest). fst ((row # rest) ! i) = c \<and> row_matches txt ((row # rest) ! i)
        \<and> (\<forall>j < i. \<not> row_matches txt ((row # rest) ! j))"
      then obtain i where i: "i < length (row # rest)" "fst ((row # rest) ! i) = c"
        "row_matches txt ((row # rest) ! i)"
        "\<forall>j < i. \<not> row_matches txt ((row # rest) ! j)" by auto
      from i(3) False obtain k where k: "i = Suc k" by (cases i) auto
      have "\<forall>j < k. \<not> row_matches txt (rest ! j)"
      proof (intro allI impI)
        fix j assume "j < k"
        then have "Suc j < i" using k by simp
        with i(4) have "\<not> row_matches txt ((row # rest) ! Suc j)" by blast
        then show "\<not> row_matches txt (rest ! j)" by simp
      qed
      with i k have "\<exists>i<length rest. fst (rest ! i) = c \<and> row_matches txt (rest ! i)
        \<and> (\<forall>j < i. \<not> row_matches txt (rest ! j))" by auto
      with Cons.IH l show "first_category txt (row # rest) = Some c" by simp
    qed
  qed
qed

text \<open>
  C8 (as amended): category inference lower-cases the name, a space and the path put
  together, and walks the table security, engineering, testing, documentation, devops,
  database, creative, utility in that order. The answer is the category of the first row
  one of whose keywords occurs in the text; it is no category exactly when no keyword of
  any row occurs.
\<close>

theorem inferCategory_first_match:
  "map fst categoryPatterns =
     [''security'', ''engineering'', ''testing'', ''documentation'',
      ''devops'', ''database'', ''creative'', ''utility'']
   \<and> (inferCategory skillName path = None \<longleftrightarrow>
        (\<forall>row \<in> set categoryPatterns. \<not> row_matches (toLowerCase (skillName @ '' '' @ path)) row))
   \<and> (inferCategory skillName path = Some c \<longleftrightarrow>
        (\<exists>i < length categoryPatterns. fst (categoryPatterns ! i) = c
           \<and> row_matches (toLowerCase (skillName @ '' '' @ path)) (categoryPatterns ! i)
           \<and> (\<forall>j < i. \<not> row_matches (toLowerCase (skillName @ '' '' @ path)) (categoryPatterns ! j))))"
  unfolding inferCategory_def first_category_None first_category_Some
  by (simp add: categoryPatterns_def)

text \<open>
  The claim as stated lower-cases the concatenation of name and path. The code puts a space
  between them, so a keyword that would span the two is not found: the name \<open>sq\<close> with
  the path \<open>l\<close> has no category, and their concatenation holds \<open>sql\<close>.
\<close>

theorem inferCategory_concatenation_counterexample:
  "inferCategory ''sq'' ''l'' = None
   \<and> first_category (toLowerCase (''sq'' @ ''l'')) categoryPatterns = Some ''database''"
  by code_simp

lemma infer_code_formatter: "inferCategory ''Code Formatter'' '''' = Some ''engineering''"
  by code_simp

theorem inferCategory_first_match_witness:
  "\<exists>i < length categoryPatterns. fst (categoryPatterns ! i) = ''engineering''
           \<and> row_matches (toLowerCase (''Code Formatter'' @ '' '' @ '''')) (categoryPatterns ! i)
           \<and> (\<forall>j < i. \<not> row_matches (toLowerCase (''Code Formatter'' @ '' '' @ '''')) (categoryPatterns ! j))"
  using inferCategory_first_match [of "''Code Formatter''" "''''" "''engineering''"] infer_code_formatter
  by blast



section \<open>Direct children of a bundle directory\<close>

lemma includes_str_slash: "includes_str s ''/'' \<longleftrightarrow> CHR ''/'' \<in> set s"
proof -
  have "(\<exists>pre suf. s = pre @ ''/'' @ suf) \<longleftrightarrow> CHR ''/'' \<in> set s"
    by (simp add: in_set_conv_decomp)
  then show ?thesis by (simp add: includes_str_iff')
qed

lemma is_direct_child_iff:
  "is_direct_child skillPath p \<longleftrightarrow>
     startsWith p (skill_prefix skillPath)
       \<and> CHR ''/'' \<notin> set (drop (length (skill_prefix skillPath)) p)"
  by (auto simp: is_direct_child_def startsWith_iff)

lemma skillFilesLoop_eq:
  "skillFilesLoop skillPath nodes =
     map (entry_of skillPath) (filter (\<lambda>n. is_direct_child skillPath (node_path n)) nodes)"
proof (induction nodes)
  case Nil
  then show ?case by simp
next
  case (Cons node nodes)
  show ?case
  proof (cases "skillPath = []")
    case True
    then show ?thesis using Cons
      by (simp add: is_direct_child_iff includes_str_slash skill_prefix_def startsWith_def entry_of_def Let_def)
  next
    case False
    then show ?thesis using Cons
      by (simp add: is_direct_child_iff includes_str_slash entry_of_def Let_def)
  qed
qed

text \<open>
  C4: every entry of the direct-child enumeration for \<open>P\<close> has a name free of separators,
  and its path is the prefix (\<open>P/\<close>, or nothing for the root bundle) followed by that name.
  The entries are, in order, the tree's nodes that are direct children, one entry per node,
  so a subdirectory is one entry of kind directory and nothing below it is listed.
\<close>

theorem getSkillFiles_direct_children:
  "(\<forall>f \<in> set (getSkillFiles t P).
      CHR ''/'' \<notin> set (file_name f) \<and> file_path f = skill_prefix P @ file_name f)
   \<and> getSkillFiles t P =
       map (entry_of P) (filter (\<lambda>n. is_direct_child P (node_path n)) (tree t))
   \<and> (\<forall>n. file_type (entry_of P n) = Directory \<longleftrightarrow> node_type n = Tree)"
proof -
  have "CHR ''/'' \<notin> set (file_name (entry_of P n))
      \<and> file_path (entry_of P n) = skill_prefix P @ file_name (entry_of P n)"
    if "is_direct_child P (node_path n)" for n
    using that by (auto simp: is_direct_child_def entry_of_def)
  then show ?thesis
    by (auto simp: getSkillFiles_def skillFilesLoop_eq entry_of_def)
qed

theorem getSkillFiles_direct_children_witness:
  "getSkillFiles
     \<lparr>tree = [\<lparr>node_path = ''skills/a'', node_type = Tree, node_sha = ''1''\<rparr>,
              \<lparr>node_path = ''skills/a/SKILL.md'', node_type = Blob, node_sha = ''2''\<rparr>,
              \<lparr>node_path = ''skills/a/lib'', node_type = Tree, node_sha = ''3''\<rparr>,
              \<lparr>node_path = ''skills/a/lib/run.sh'', node_type = Blob, node_sha = ''4''\<rparr>,
              \<lparr>node_path = ''skills/b/SKILL.md'', node_type = Blob, node_sha = ''5''\<rparr>],
      truncated = False\<rparr> ''skills/a''
   = [\<lparr>file_name = ''SKILL.md'', file_path = ''skills/a/SKILL.md'', file_type = File,
        file_sha = Some ''2''\<rparr>,
      \<lparr>file_name = ''lib'', file_path = ''skills/a/lib'', file_type = Directory,
        file_sha = Some ''3''\<rparr>]
   \<and> CHR ''/'' \<notin> set ''SKILL.md'' \<and> CHR ''/'' \<notin> set ''lib''"
proof -
  let ?t = "\<lparr>tree = [\<lparr>node_path = ''skills/a'', node_type = Tree, node_sha = ''1''\<rparr>,
              \<lparr>node_path = ''skills/a/SKILL.md'', node_type = Blob, node_sha = ''2''\<rparr>,
              \<lparr>node_path = ''skills/a/lib'', node_type = Tree, node_sha = ''3''\<rparr>,
              \<lparr>node_path = ''skills/a/lib/run.sh'', node_type = Blob, node_sha = ''4''\<rparr>,
              \<lparr>node_path = ''skills/b/SKILL.md'', node_type = Blob, node_sha = ''5''\<rparr>],
      truncated = False\<rparr>"
  have e: "getSkillFiles ?t ''skills/a''
      = [\<lparr>file_name = ''SKILL.md'', file_path = ''skills/a/SKILL.md'', file_type = File,
           file_sha = Some ''2''\<rparr>,
         \<lparr>file_name = ''lib'', file_path = ''skills/a/lib'', file_type = Directory,
           file_sha = Some ''3''\<rparr>]"
    by code_simp
  from getSkillFiles_direct_children [of ?t "''skills/a''"]
  have "\<forall>f \<in> set (getSkillFiles ?t ''skills/a''). CHR ''/'' \<notin> set (file_name f)"
    by blast
  with e show ?thesis by simp
qed


section \<open>Cache hits, revalidation and the rate limit\<close>

lemma quota_is_zero_cong [simp]:
  "quota_is_zero (s\<lparr>requests := r\<rparr>) = quota_is_zero s"
  "quota_is_zero (s\<lparr>ticks := n\<rparr>) = quota_is_zero s"
  by (simp_all add: quota_is_zero_def)

lemma reset_time_cong [simp]:
  "reset_time (s\<lparr>requests := r\<rparr>) = reset_time s"
  "reset_time (s\<lparr>ticks := n\<rparr>) = reset_time s"
  by (simp_all add: reset_time_def)

lemma updateRateLimit_fields [simp]:
  "cache (updateRateLimit h s) = cache s"
  "disk (updateRateLimit h s) = disk s"
  "requests (updateRateLimit h s) = requests s"
  "ticks (updateRateLimit h s) = ticks s"
  by (simp_all add: updateRateLimit_def split: option.splits)

lemma updateRateLimit_commute:
  "updateRateLimit h (s\<lparr>requests := r\<rparr>) = (updateRateLimit h s)\<lparr>requests := r\<rparr>"
  "updateRateLimit h (s\<lparr>ticks := n\<rparr>) = (updateRateLimit h s)\<lparr>ticks := n\<rparr>"
  by (simp_all add: updateRateLimit_def split: option.splits)

text \<open>
  C3: with an entry under the key whose expiry is later than the clock, the fetch returns
  the entry's payload, sends no request and changes nothing but the count of clock
  readings. With an expired entry that holds a validator token, a 304 answer to the
  conditional request returns the cached payload and leaves the entry as it was except
  for its expiry, which becomes the clock plus the configured lifetime: not earlier than
  the old expiry when the lifetime is not negative and the clock has not run backwards,
  and later when the lifetime is positive.
\<close>

theorem fetchWithCache_cached:
  "(cache s k = Some e \<and> expiresAt e > clock env (ticks s) \<longrightarrow>
      fetchWithCache env url k s = (Inr (data e), s\<lparr>ticks := Suc (ticks s)\<rparr>)
      \<and> requests (snd (fetchWithCache env url k s)) = requests s)
   \<and> (cache s k = Some e \<and> \<not> expiresAt e > clock env (ticks s)
        \<and> etag e = Some t \<and> t \<noteq> []
        \<and> net env (requests s) \<lparr>req_url = url, req_headers = getHeaders env (Some t)\<rparr> = Inr r
        \<and> status r = 304 \<longrightarrow>
      fst (fetchWithCache env url k s) = Inr (data e)
      \<and> cache (snd (fetchWithCache env url k s)) =
          (cache s)(k \<mapsto> e\<lparr>expiresAt := clock env (Suc (ticks s)) + cacheExpiry env\<rparr>)
      \<and> requests (snd (fetchWithCache env url k s)) =
          requests s @ [\<lparr>req_url = url, req_headers = getHeaders env (Some t)\<rparr>]
      \<and> (0 \<le> cacheExpirySeconds env \<and> clock env (ticks s) \<le> clock env (Suc (ticks s)) \<longrightarrow>
           expiresAt e \<le> clock env (Suc (ticks s)) + cacheExpiry env)
      \<and> (0 < cacheExpirySeconds env \<and> clock env (ticks s) \<le> clock env (Suc (ticks s)) \<longrightarrow>
           expiresAt e < clock env (Suc (ticks s)) + cacheExpiry env))"
  by (auto simp: fetchWithCache_def refetch_def handleResponse_def dateNow_def fetch_def cacheExpiry_def Let_def)

theorem fetchWithCache_cached_witness:
  "fst (fetchWithCache env304 ''u'' ''tree:acme/demo'' (state_cached 5000)) = Inr 7
   \<and> requests (snd (fetchWithCache env304 ''u'' ''tree:acme/demo'' (state_cached 5000))) = []
   \<and> fst (fetchWithCache env304 ''u'' ''tree:acme/demo'' (state_cached 500)) = Inr 7
   \<and> cache (snd (fetchWithCache env304 ''u'' ''tree:acme/demo'' (state_cached 500))) ''tree:acme/demo''
       = Some \<lparr>data = 7, expiresAt = 3601001, etag = Some ''W/1''\<rparr>
   \<and> length (requests (snd (fetchWithCache env304 ''u'' ''tree:acme/demo'' (state_cached 500)))) = 1"
proof -
  have a: "cache (state_cached 5000) ''tree:acme/demo'' = Some \<lparr>data = 7, expiresAt = 5000, etag = Some ''W/1''\<rparr>
      \<and> expiresAt \<lparr>data = 7::nat, expiresAt = 5000, etag = Some ''W/1''\<rparr> > clock env304 (ticks (state_cached 5000))"
    by (simp add: state_cached_def env304_def)
  have b: "cache (state_cached 500) ''tree:acme/demo'' = Some \<lparr>data = 7, expiresAt = 500, etag = Some ''W/1''\<rparr>
      \<and> \<not> expiresAt \<lparr>data = 7::nat, expiresAt = 500, etag = Some ''W/1''\<rparr> > clock env304 (ticks (state_cached 500))
      \<and> etag \<lparr>data = 7::nat, expiresAt = 500, etag = Some ''W/1''\<rparr> = Some ''W/1'' \<and> ''W/1'' \<noteq> []
      \<and> net env304 (requests (state_cached 500)) \<lparr>req_url = ''u'', req_headers = getHeaders env304 (Some ''W/1'')\<rparr>
           = Inr \<lparr>status = 304, statusText = ''Not Modified'', headers = Map.empty, json = None, raw_body = None\<rparr>
      \<and> status \<lparr>status = 304, statusText = ''Not Modified'', headers = Map.empty, json = (None :: nat option), raw_body = None\<rparr> = 304"
    by (simp add: state_cached_def env304_def)
  from fetchWithCache_cached [of "state_cached 5000" "''tree:acme/demo''"
        "\<lparr>data = 7, expiresAt = 5000, etag = Some ''W/1''\<rparr>" env304 "''u''"] a
  have 1: "fst (fetchWithCache env304 ''u'' ''tree:acme/demo'' (state_cached 5000)) = Inr 7
      \<and> requests (snd (fetchWithCache env304 ''u'' ''tree:acme/demo'' (state_cached 5000))) = []"
    by (simp add: state_cached_def)
  from fetchWithCache_cached [of "state_cached 500" "''tree:acme/demo''"
        "\<lparr>data = 7, expiresAt = 500, etag = Some ''W/1''\<rparr>" env304 "''u''" "''W/1''"
        "\<lparr>status = 304, statusText = ''Not Modified'', headers = Map.empty, json = None, raw_body = None\<rparr>"] b
  have 2: "fst (fetchWithCache env304 ''u'' ''tree:acme/demo'' (state_cached 500)) = Inr 7
   \<and> cache (snd (fetchWithCache env304 ''u'' ''tree:acme/demo'' (state_cached 500))) ''tree:acme/demo''
       = Some \<lparr>data = 7, expiresAt = 3601001, etag = Some ''W/1''\<rparr>
   \<and> length (requests (snd (fetchWithCache env304 ''u'' ''tree:acme/demo'' (state_cached 500)))) = 1"
    by (simp add: state_cached_def env304_def cacheExpiry_def)
  from 1 2 show ?thesis by simp
qed

text \<open>
  C5 (as amended): a fetch that is not served from the cache and receives a non-success
  response (a 304 answering an entry in hand apart) fails with the rate-limit failure,
  carrying the recorded reset time, exactly when the status is 403 and the recorded
  remaining quota, after this response's headers are recorded, is zero; otherwise it fails
  with the generic failure carrying status and status text.
\<close>

theorem fetchWithCache_rate_limit:
  assumes "\<forall>e. cache s k = Some e \<longrightarrow> \<not> expiresAt e > clock env (ticks s)"
    and "net env (requests s)
           \<lparr>req_url = url,
            req_headers = getHeaders env (case cache s k of Some e \<Rightarrow> etag e | None \<Rightarrow> None)\<rparr> = Inr r"
    and "\<not> ok r" and "status r \<noteq> 304 \<or> cache s k = None"
  shows "fst (fetchWithCache env url k s) =
           (if status r = 403 \<and> quota_is_zero (updateRateLimit (headers r) s)
            then Inl (RateLimitExceeded (reset_time (updateRateLimit (headers r) s)))
            else Inl (GitHubApiError (status r) (statusText r)))"
  using assms
  by (cases "cache s k")
     (auto simp: fetchWithCache_def refetch_def handleResponse_def dateNow_def fetch_def Let_def
        updateRateLimit_commute)

text \<open>The two failures are told apart by their messages, whatever the texts put in.\<close>

lemma messages_differ: "rateLimitMessage a \<noteq> apiErrorMessage b c"
  by (simp add: rateLimitMessage_def apiErrorMessage_def)

lemma parse0: "parseInt ''0'' = Some 0" "parseInt ''60'' = Some 60" "parseInt ''1700000000'' = Some 1700000000"
  by (simp_all add: parseInt_def ltrim_def is_space_def is_digit_def digits_value_def Let_def)

text \<open>
  The claim as stated fails for a status other than 403: a 500 response whose headers
  record a remaining quota of zero is reported as the generic failure.
\<close>

theorem fetchWithCache_500_counterexample:
  "\<not> ok \<lparr>status = 500, statusText = ''Internal Server Error'', headers = quota_headers,
          json = (None :: nat option), raw_body = None\<rparr>
   \<and> quota_is_zero (snd (fetchWithCache (env_status 500 ''Internal Server Error'') ''u'' ''k'' state_empty))
   \<and> fst (fetchWithCache (env_status 500 ''Internal Server Error'') ''u'' ''k'' state_empty)
       = Inl (GitHubApiError 500 ''Internal Server Error'')"
  by (simp add: fetchWithCache_def refetch_def handleResponse_def fetch_def env_status_def state_empty_def
      ok_def updateRateLimit_def quota_headers_def quota_is_zero_def parse0 Let_def)

theorem fetchWithCache_rate_limit_witness:
  "fst (fetchWithCache (env_status 403 ''Forbidden'') ''u'' ''k'' state_empty)
       = Inl (RateLimitExceeded (Some 1700000000000))"
proof -
  let ?r = "\<lparr>status = 403, statusText = ''Forbidden'', headers = quota_headers,
          json = (None :: nat option), raw_body = None\<rparr>"
  have 1: "\<forall>e. cache state_empty ''k'' = Some e \<longrightarrow> \<not> expiresAt e > clock (env_status 403 ''Forbidden'') (ticks state_empty)"
    by (simp add: state_empty_def)
  have 2: "net (env_status 403 ''Forbidden'') (requests state_empty)
           \<lparr>req_url = ''u'',
            req_headers = getHeaders (env_status 403 ''Forbidden'') (case cache state_empty ''k'' of Some e \<Rightarrow> etag e | None \<Rightarrow> None)\<rparr> = Inr ?r"
    by (simp add: env_status_def)
  have 3: "\<not> ok ?r" by (simp add: ok_def)
  have 4: "status ?r \<noteq> 304 \<or> cache state_empty ''k'' = None" by simp
  have 5: "quota_is_zero (updateRateLimit (headers ?r) state_empty)"
    by (simp add: updateRateLimit_def quota_headers_def quota_is_zero_def parse0 state_empty_def)
  have 6: "reset_time (updateRateLimit (headers ?r) state_empty) = Some 1700000000000"
    by (simp add: updateRateLimit_def quota_headers_def reset_time_def parse0 state_empty_def
        newDate_def)
  from fetchWithCache_rate_limit [OF 1 2 3 4] 5 6 show ?thesis by simp
qed


section \<open>Installing and uninstalling\<close>

lemma fs_grows_refl [simp]: "fs_grows d d"
  by (simp add: fs_grows_def)

lemma fs_grows_trans: "fs_grows a b \<Longrightarrow> fs_grows b c \<Longrightarrow> fs_grows a c"
  by (simp add: fs_grows_def)

lemma mkdir_recursive_dir: "d p = Some Dir \<Longrightarrow> mkdir_recursive d p = Inr d"
  by (simp add: mkdir_recursive.simps)

lemma mkdir_recursive_file: "d p = Some (RegularFile x) \<Longrightarrow> mkdir_recursive d p = Inl EEXIST"
  by (simp add: mkdir_recursive.simps)

lemma mkdir_recursive_keeps:
  "mkdir_recursive d p = Inr d' \<Longrightarrow> d q \<noteq> None \<Longrightarrow> d' q = d q"
proof (induction d p arbitrary: d' rule: mkdir_recursive.induct)
  case (1 d p)
  show ?case
  proof (cases "d p")
    case None
    show ?thesis
    proof (cases "p = []")
      case True
      with None "1.prems" show ?thesis
        by (auto simp: mkdir_recursive.simps[of d "[]"])
    next
      case False
      with None "1.prems" obtain d1 where d1: "mkdir_recursive d (butlast p) = Inr d1" "d' = d1(p \<mapsto> Dir)"
        by (auto simp: mkdir_recursive.simps[of d p] split: sum.splits)
      from "1.IH"[OF None False d1(1) "1.prems"(2)] have "d1 q = d q" .
      moreover have "q \<noteq> p" using None "1.prems"(2) by auto
      ultimately show ?thesis using d1(2) by simp
    qed
  next
    case (Some a)
    with "1.prems" show ?thesis
      by (cases a) (auto simp: mkdir_recursive.simps[of d p])
  qed
qed

lemma mkdir_recursive_grows: "mkdir_recursive d p = Inr d' \<Longrightarrow> fs_grows d d'"
  unfolding fs_grows_def by (metis mkdir_recursive_keeps option.distinct(1))

lemma writeFile_grows: "writeFile d p x = Inr d' \<Longrightarrow> fs_grows d d'"
  by (auto simp: writeFile_def fs_grows_def split: if_splits option.splits fs_node.splits)

lemma fetch_disk [simp]: "disk (snd (fetch env req s)) = disk s"
  by (simp add: fetch_def)

lemma fetchWithCache_disk: "disk (snd (fetchWithCache env url k s)) = disk s"
  by (auto simp: fetchWithCache_def refetch_def handleResponse_def dateNow_def fetch_def Let_def
        split: option.splits sum.splits prod.splits)

lemma fetchRepositoryTree_disk: "disk (snd (fetchRepositoryTree env repo s)) = disk s"
  by (simp add: fetchRepositoryTree_def fetchWithCache_disk)

lemma downloadFile_disk: "disk (snd (downloadFile env repo p s)) = disk s"
  by (auto simp: downloadFile_def fetch_def split: sum.splits option.splits prod.splits)

lemma downloadFiles_grows: "fs_grows (disk s) (disk (downloadFiles env repo l fs s))"
proof (induction fs arbitrary: s)
  case Nil
  then show ?case by simp
next
  case (Cons f fs)
  obtain r s1 where d: "downloadFile env repo (file_path f) s = (r, s1)" by force
  then have s1: "disk s1 = disk s" using downloadFile_disk[of env repo "file_path f" s] by simp
  show ?case
  proof (cases r)
    case (Inl e)
    with d s1 Cons.IH[of s1] show ?thesis by simp
  next
    case (Inr content)
    show ?thesis
    proof (cases "writeFile (disk s1) (path_join l (file_name f)) (Buffer content)")
      case (Inl e)
      with d Inr s1 Cons.IH[of s1] show ?thesis by simp
    next
      case w: (Inr dd)
      then have "fs_grows (disk s1) dd" by (rule writeFile_grows)
      moreover have "fs_grows (disk (s1\<lparr>disk := dd\<rparr>)) (disk (downloadFiles env repo l fs (s1\<lparr>disk := dd\<rparr>)))"
        by (rule Cons.IH)
      ultimately have "fs_grows (disk s1) (disk (downloadFiles env repo l fs (s1\<lparr>disk := dd\<rparr>)))"
        by (simp add: fs_grows_trans)
      then show ?thesis using d Inr w s1 by simp
    qed
  qed
qed

lemma downloadNodes_grows_step:
  assumes dir: "\<And>repo rp l s r s'. downloadDirectory n env repo rp l s = Some (r, s') \<Longrightarrow>
                  fs_grows (disk s) (disk s')"
  shows "downloadNodes n env repo pfx l nodes s = Some (r, s') \<Longrightarrow> fs_grows (disk s) (disk s')"
proof (induction nodes arbitrary: s)
  case Nil
  then show ?case by simp
next
  case (Cons node nodes)
  show ?case
  proof (cases "startsWith (node_path node) pfx
                  \<and> \<not> includes_str (drop (length pfx) (node_path node)) ''/''")
    case False
    with Cons.prems have "downloadNodes n env repo pfx l nodes s = Some (r, s')"
      by (auto split: if_splits)
    then show ?thesis by (rule Cons.IH)
  next
    case True
    show ?thesis
    proof (cases "node_type node")
      case Blob
      obtain x s1 where d: "downloadFile env repo (node_path node) s = (x, s1)" by force
      then have s1: "disk s1 = disk s" using downloadFile_disk[of env repo "node_path node" s] by simp
      show ?thesis
      proof (cases x)
        case (Inl e)
        with Cons.prems True Blob d s1 show ?thesis by auto
      next
        case (Inr content)
        show ?thesis
        proof (cases "writeFile (disk s1) (path_join l (drop (length pfx) (node_path node))) (Buffer content)")
          case (Inl e)
          with Cons.prems True Blob d Inr s1 show ?thesis by auto
        next
          case w: (Inr dd)
          then have "fs_grows (disk s1) dd" by (rule writeFile_grows)
          moreover have "downloadNodes n env repo pfx l nodes (s1\<lparr>disk := dd\<rparr>) = Some (r, s')"
            using Cons.prems True Blob d Inr w by simp
          then have "fs_grows (disk (s1\<lparr>disk := dd\<rparr>)) (disk s')" by (rule Cons.IH)
          ultimately show ?thesis using s1 by (simp add: fs_grows_trans)
        qed
      qed
    next
      case Tree
      show ?thesis
      proof (cases "downloadDirectory n env repo (node_path node)
                      (path_join l (drop (length pfx) (node_path node))) s")
        case None
        with Cons.prems True Tree show ?thesis by simp
      next
        case (Some a)
        obtain x s1 where a: "a = (x, s1)" by force
        with Some have g: "fs_grows (disk s) (disk s1)" using dir by blast
        show ?thesis
        proof (cases x)
          case (Inl e)
          with Cons.prems True Tree Some a have "s' = s1" by simp
          with g show ?thesis by simp
        next
          case (Inr u)
          then have "downloadNodes n env repo pfx l nodes s1 = Some (r, s')"
            using Cons.prems True Tree Some a by simp
          then have "fs_grows (disk s1) (disk s')" by (rule Cons.IH)
          with g show ?thesis by (rule fs_grows_trans)
        qed
      qed
    qed
  qed
qed

lemma downloadDirectory_grows:
  "downloadDirectory n env repo remotePath l s = Some (r, s') \<Longrightarrow> fs_grows (disk s) (disk s')"
proof (induction n arbitrary: repo remotePath l s r s')
  case 0
  then show ?case by simp
next
  case (Suc n)
  show ?case
  proof (cases "mkdir_recursive (disk s) l")
    case (Inl e)
    with Suc.prems show ?thesis by auto
  next
    case m: (Inr d)
    then have dd: "fs_grows (disk s) d" by (rule mkdir_recursive_grows)
    obtain x s1 where f: "fetchRepositoryTree env repo (s\<lparr>disk := d\<rparr>) = (x, s1)" by force
    then have s1: "disk s1 = d"
      using fetchRepositoryTree_disk[of env repo "s\<lparr>disk := d\<rparr>"] by simp
    show ?thesis
    proof (cases x)
      case (Inl e)
      with Suc.prems m f s1 dd show ?thesis by auto
    next
      case (Inr t)
      with Suc.prems m f
      have "downloadNodes n env repo (remotePath @ ''/'') l (tree t) s1 = Some (r, s')" by simp
      then have "fs_grows (disk s1) (disk s')"
        by (rule downloadNodes_grows_step[rotated]) (rule Suc.IH)
      then show ?thesis using s1 dd by (auto intro: fs_grows_trans)
    qed
  qed
qed

lemma downloadDirs_grows:
  "downloadDirs fuel env repo l dirs s = Some (r, s') \<Longrightarrow> fs_grows (disk s) (disk s')"
proof (induction dirs arbitrary: s)
  case Nil
  then show ?case by simp
next
  case (Cons dir dirs)
  show ?case
  proof (cases "downloadDirectory fuel env repo (file_path dir) (path_join l (file_name dir)) s")
    case None
    with Cons.prems show ?thesis by simp
  next
    case (Some a)
    obtain x s1 where a: "a = (x, s1)" by force
    with Some have 1: "fs_grows (disk s) (disk s1)" by (auto dest: downloadDirectory_grows)
    show ?thesis
    proof (cases x)
      case (Inl e)
      with Cons.prems Some a 1 show ?thesis by auto
    next
      case (Inr u)
      with Cons.prems Some a have "downloadDirs fuel env repo l dirs s1 = Some (r, s')" by simp
      then have "fs_grows (disk s1) (disk s')" by (rule Cons.IH)
      with 1 show ?thesis by (rule fs_grows_trans)
    qed
  qed
qed

lemma downloadPhase_grows:
  assumes a: "downloadPhase fuel env skill l s = Some (r, s')"
  shows "fs_grows (disk s) (disk s')"
proof (cases "mkdir_recursive (disk s) l")
  case (Inl e)
  with a show ?thesis by (auto simp: downloadPhase_def)
next
  case (Inr d)
  then have 1: "fs_grows (disk s) d" by (rule mkdir_recursive_grows)
  let ?s2 = "downloadFiles env (skill_repository skill) l
             (filter (\<lambda>f. file_type f = File) (skill_files skill)) (s\<lparr>disk := d\<rparr>)"
  have 2: "fs_grows d (disk ?s2)"
    using downloadFiles_grows[of "s\<lparr>disk := d\<rparr>"] by simp
  from a Inr have "downloadDirs fuel env (skill_repository skill) l
          (filter (\<lambda>f. file_type f = Directory) (skill_files skill)) ?s2 = Some (r, s')"
    by (simp add: downloadPhase_def)
  then have "fs_grows (disk ?s2) (disk s')" by (rule downloadDirs_grows)
  with 1 2 show ?thesis by (blast intro: fs_grows_trans)
qed

lemma saveInstallMetadata_grows:
  "fs_grows (disk s) (disk (snd (saveInstallMetadata env skill l s)))"
  by (auto simp: saveInstallMetadata_def dateNow_def split: sum.splits dest!: writeFile_grows)

lemma ensureInstallDirectory_grows:
  "fs_grows (disk s) (disk (snd (ensureInstallDirectory env s)))"
  by (auto simp: ensureInstallDirectory_def split: sum.splits dest!: mkdir_recursive_grows)

lemma ensureInstallDirectory_exists:
  "disk s (getInstallPath env) \<noteq> None \<Longrightarrow> ensureInstallDirectory env s = (Inr (), s)"
proof -
  assume "disk s (getInstallPath env) \<noteq> None"
  then obtain x where x: "disk s (getInstallPath env) = Some x" by auto
  show ?thesis
    by (cases x) (simp_all add: ensureInstallDirectory_def x mkdir_recursive_dir mkdir_recursive_file)
qed

text \<open>
  C1 (as amended): when the bundle's local directory is there, under an install root that
  is there, \<^verbatim>\<open>install\<close> returns at once, whatever the depth allowed: the result is a
  failure (\<^verbatim>\<open>success: false\<close>) that carries the local path and the error
  \<^verbatim>\<open>Skill is already installed\<close>, and the state is the one it started from, so nothing was
  written to the disk and no request was sent.
\<close>

theorem install_already_installed:
  assumes "disk s (getSkillLocalPath env skill) = Some Dir"
    and "disk s (getInstallPath env) \<noteq> None"
  shows "install fuel env skill s =
           Some (\<lparr>res_success = False, res_skill = skill,
                   res_localPath = Some (getSkillLocalPath env skill),
                   res_error = Some AlreadyInstalled\<rparr>, s)"
  using assms by (simp add: install_def ensureInstallDirectory_exists isInstalled_def)

lemma mkdir_recursive_made: "mkdir_recursive d p = Inr d' \<Longrightarrow> d' p = Some Dir"
  by (subst (asm) mkdir_recursive.simps) (auto split: option.splits fs_node.splits if_splits sum.splits)

lemma fs_grows_dir: "fs_grows d d' \<Longrightarrow> d p = Some Dir \<Longrightarrow> d' p = Some Dir"
  by (simp add: fs_grows_def)

lemma downloadPhase_grows_made:
  assumes a: "downloadPhase fuel env skill l s = Some (r, s')"
    and m: "mkdir_recursive (disk s) l = Inr d"
  shows "fs_grows d (disk s')"
proof -
  let ?s2 = "downloadFiles env (skill_repository skill) l
             (filter (\<lambda>f. file_type f = File) (skill_files skill)) (s\<lparr>disk := d\<rparr>)"
  have 2: "fs_grows d (disk ?s2)"
    using downloadFiles_grows[of "s\<lparr>disk := d\<rparr>"] by simp
  from a m have "downloadDirs fuel env (skill_repository skill) l
          (filter (\<lambda>f. file_type f = Directory) (skill_files skill)) ?s2 = Some (r, s')"
    by (simp add: downloadPhase_def)
  then have "fs_grows (disk ?s2) (disk s')" by (rule downloadDirs_grows)
  with 2 show ?thesis by (rule fs_grows_trans)
qed

lemma install_after_download:
  assumes i: "install fuel env skill s = Some (r, s')"
    and n: "res_error r \<noteq> Some ManifestNotFound"
    and e: "ensureInstallDirectory env s = (Inr (), s1)"
    and u: "\<not> isInstalled env skill s1"
    and d: "downloadPhase fuel env skill (getSkillLocalPath env skill) s1 = Some (y, s4)"
  shows "fs_grows (disk s4) (disk s')"
proof (cases y)
  case (Inl err)
  with i e u d have "s' = s4" by (auto simp: install_def)
  then show ?thesis by simp
next
  case (Inr v)
  with i n e u d
  have "s' = snd (saveInstallMetadata env skill (getSkillLocalPath env skill) s4)"
    by (auto simp: install_def split: if_splits prod.splits sum.splits)
  then show ?thesis
    using saveInstallMetadata_grows[of s4 env skill "getSkillLocalPath env skill"] by simp
qed

text \<open>
  C2: when the directory of the install root is in place, the bundle is not installed and
  the download phase ends with nothing at \<^verbatim>\<open>SKILL.md\<close> in the local directory, \<^verbatim>\<open>install\<close>
  removes the local directory with all below it and fails with the manifest-not-found
  error; after every run that fails so, nothing is at or below the local directory. That
  is the only rollback: a run fails so only when the download phase ended with nothing at
  \<^verbatim>\<open>SKILL.md\<close>, and every run that ends otherwise (a success with a direct file that could
  not be downloaded, a failure thrown while a subdirectory was mirrored) deleted nothing.
  The disk it leaves grows out of the disk it found, out of the disk as it was once the
  bundle's directory had been created, and out of the disk the download phase left; the
  bundle's directory is still there.
\<close>

theorem install_manifest_missing:
  "(ensureInstallDirectory env s = (Inr (), s1) \<and> \<not> isInstalled env skill s1
      \<and> downloadPhase fuel env skill (getSkillLocalPath env skill) s1 = Some (Inr (), s4)
      \<and> disk s4 (path_join (getSkillLocalPath env skill) ''SKILL.md'') = None
    \<longrightarrow> install fuel env skill s =
          Some (\<lparr>res_success = False, res_skill = skill, res_localPath = None,
                  res_error = Some ManifestNotFound\<rparr>,
                s4\<lparr>disk := rm_recursive (disk s4) (getSkillLocalPath env skill)\<rparr>))
   \<and> (install fuel env skill s = Some (r, s') \<and> res_error r = Some ManifestNotFound
    \<longrightarrow> \<not> res_success r \<and> (\<forall>q. prefix (getSkillLocalPath env skill) q \<longrightarrow> disk s' q = None))
   \<and> (install fuel env skill s = Some (r, s') \<and> res_error r = Some ManifestNotFound
    \<longrightarrow> (\<exists>t1 t4. ensureInstallDirectory env s = (Inr (), t1) \<and> \<not> isInstalled env skill t1
          \<and> downloadPhase fuel env skill (getSkillLocalPath env skill) t1 = Some (Inr (), t4)
          \<and> disk t4 (path_join (getSkillLocalPath env skill) ''SKILL.md'') = None
          \<and> s' = t4\<lparr>disk := rm_recursive (disk t4) (getSkillLocalPath env skill)\<rparr>))
   \<and> (install fuel env skill s = Some (r, s') \<and> res_error r \<noteq> Some ManifestNotFound
    \<longrightarrow> fs_grows (disk s) (disk s'))
   \<and> (install fuel env skill s = Some (r, s') \<and> res_error r \<noteq> Some ManifestNotFound
        \<and> ensureInstallDirectory env s = (Inr (), s1) \<and> \<not> isInstalled env skill s1
        \<and> mkdir_recursive (disk s1) (getSkillLocalPath env skill) = Inr d
    \<longrightarrow> fs_grows d (disk s') \<and> disk s' (getSkillLocalPath env skill) = Some Dir)
   \<and> (install fuel env skill s = Some (r, s') \<and> res_error r \<noteq> Some ManifestNotFound
        \<and> ensureInstallDirectory env s = (Inr (), s1) \<and> \<not> isInstalled env skill s1
        \<and> downloadPhase fuel env skill (getSkillLocalPath env skill) s1 = Some (y, s4')
    \<longrightarrow> fs_grows (disk s4') (disk s'))"
proof (intro conjI impI)
  assume "ensureInstallDirectory env s = (Inr (), s1) \<and> \<not> isInstalled env skill s1
      \<and> downloadPhase fuel env skill (getSkillLocalPath env skill) s1 = Some (Inr (), s4)
      \<and> disk s4 (path_join (getSkillLocalPath env skill) ''SKILL.md'') = None"
  then show "install fuel env skill s =
          Some (\<lparr>res_success = False, res_skill = skill, res_localPath = None,
                  res_error = Some ManifestNotFound\<rparr>,
                s4\<lparr>disk := rm_recursive (disk s4) (getSkillLocalPath env skill)\<rparr>)"
    by (simp add: install_def access_def)
next
  assume a: "install fuel env skill s = Some (r, s') \<and> res_error r = Some ManifestNotFound"
  then show "\<not> res_success r"
    by (auto simp: install_def split: prod.splits sum.splits if_splits option.splits)
  from a show "\<forall>q. prefix (getSkillLocalPath env skill) q \<longrightarrow> disk s' q = None"
    by (auto simp: install_def rm_recursive_def split: prod.splits sum.splits if_splits option.splits)
next
  assume a: "install fuel env skill s = Some (r, s') \<and> res_error r = Some ManifestNotFound"
  obtain x t1 where e: "ensureInstallDirectory env s = (x, t1)" by force
  from a e obtain u where x: "x = Inr u" and ni: "\<not> isInstalled env skill t1"
    by (cases x) (auto simp: install_def split: if_splits)
  from a e x ni obtain z t4 where
    d: "downloadPhase fuel env skill (getSkillLocalPath env skill) t1 = Some (z, t4)"
    by (auto simp: install_def split: option.splits)
  from a e x ni d obtain v where z: "z = Inr v"
    by (cases z) (auto simp: install_def)
  from a e x ni d z
  have "disk t4 (path_join (getSkillLocalPath env skill) ''SKILL.md'') = None
      \<and> s' = t4\<lparr>disk := rm_recursive (disk t4) (getSkillLocalPath env skill)\<rparr>"
    by (auto simp: install_def access_def split: if_splits prod.splits sum.splits)
  with e x ni d z
  show "\<exists>t1 t4. ensureInstallDirectory env s = (Inr (), t1) \<and> \<not> isInstalled env skill t1
          \<and> downloadPhase fuel env skill (getSkillLocalPath env skill) t1 = Some (Inr (), t4)
          \<and> disk t4 (path_join (getSkillLocalPath env skill) ''SKILL.md'') = None
          \<and> s' = t4\<lparr>disk := rm_recursive (disk t4) (getSkillLocalPath env skill)\<rparr>"
    by auto
next
  assume a: "install fuel env skill s = Some (r, s') \<and> res_error r \<noteq> Some ManifestNotFound"
  obtain x t1 where e: "ensureInstallDirectory env s = (x, t1)" by force
  then have g1: "fs_grows (disk s) (disk t1)"
    using ensureInstallDirectory_grows[of s env] by simp
  show "fs_grows (disk s) (disk s')"
  proof (cases x)
    case (Inl err)
    with a e g1 show ?thesis by (auto simp: install_def)
  next
    case (Inr u)
    show ?thesis
    proof (cases "isInstalled env skill t1")
      case True
      with a e Inr g1 show ?thesis by (auto simp: install_def)
    next
      case False
      with a e Inr obtain z t4 where
        d: "downloadPhase fuel env skill (getSkillLocalPath env skill) t1 = Some (z, t4)"
        by (auto simp: install_def split: option.splits)
      then have g2: "fs_grows (disk t1) (disk t4)" by (rule downloadPhase_grows)
      from a e Inr False d have "fs_grows (disk t4) (disk s')"
        by (intro install_after_download[where ?s1.0 = t1 and y = z]) auto
      with g1 g2 show ?thesis by (blast intro: fs_grows_trans)
    qed
  qed
next
  assume a: "install fuel env skill s = Some (r, s') \<and> res_error r \<noteq> Some ManifestNotFound
        \<and> ensureInstallDirectory env s = (Inr (), s1) \<and> \<not> isInstalled env skill s1
        \<and> mkdir_recursive (disk s1) (getSkillLocalPath env skill) = Inr d"
  then obtain z t4 where
    dp: "downloadPhase fuel env skill (getSkillLocalPath env skill) s1 = Some (z, t4)"
    by (auto simp: install_def split: option.splits)
  with a have g2: "fs_grows d (disk t4)" by (auto intro: downloadPhase_grows_made)
  from a dp have "fs_grows (disk t4) (disk s')"
    by (intro install_after_download[where ?s1.0 = s1 and y = z]) auto
  with g2 show g: "fs_grows d (disk s')" by (rule fs_grows_trans)
  from a have "d (getSkillLocalPath env skill) = Some Dir" by (auto dest: mkdir_recursive_made)
  with g show "disk s' (getSkillLocalPath env skill) = Some Dir" by (rule fs_grows_dir)
next
  assume a: "install fuel env skill s = Some (r, s') \<and> res_error r \<noteq> Some ManifestNotFound
        \<and> ensureInstallDirectory env s = (Inr (), s1) \<and> \<not> isInstalled env skill s1
        \<and> downloadPhase fuel env skill (getSkillLocalPath env skill) s1 = Some (y, s4')"
  then show "fs_grows (disk s4') (disk s')"
    by (intro install_after_download[where ?s1.0 = s1 and y = y]) auto
qed

text \<open>
  C9: \<^verbatim>\<open>uninstall\<close> fails exactly when the bundle's local directory is not there (nothing,
  or a regular file, at its path); it then reports \<^verbatim>\<open>not installed\<close> and leaves the state as
  it was. When the directory is there, the call succeeds and the disk afterwards is the
  disk before without the local directory and everything below it.
\<close>

theorem uninstall_removes:
  "((\<exists>e. fst (uninstall env skill s) = Inl e) \<longleftrightarrow> disk s (getSkillLocalPath env skill) \<noteq> Some Dir)
   \<and> (disk s (getSkillLocalPath env skill) \<noteq> Some Dir \<longrightarrow>
        uninstall env skill s = (Inl (NotInstalled (skill_name skill)), s))
   \<and> (disk s (getSkillLocalPath env skill) = Some Dir \<longrightarrow>
        uninstall env skill s =
          (Inr (), s\<lparr>disk := (\<lambda>q. if prefix (getSkillLocalPath env skill) q then None else disk s q)\<rparr>))"
  by (auto simp: uninstall_def isInstalled_def rm_recursive_def)

lemma demo_name: "collapse_spaces (toLowerCase ''My Skill'') = ''my-skill''"
proof -
  have "toLowerCase ''My Skill'' = ''my skill''" by code_simp
  then show ?thesis by (simp add: is_space_def)
qed

lemma demo_paths:
  "getInstallPath env_demo = [''s'']"
  "getSkillLocalPath env_demo (skill_demo fs) = [''s'', ''my-skill'']"
  by (simp_all add: getSkillLocalPath_def getInstallPath_def env_demo_def skill_demo_def path_join_def
      join_component_def startsWith_def demo_name)

lemma demo_join:
  "path_join [''s'', ''my-skill''] ''SKILL.md'' = [''s'', ''my-skill'', ''SKILL.md'']"
  "path_join [''s'', ''my-skill''] ''README.md'' = [''s'', ''my-skill'', ''README.md'']"
  "path_join [''s'', ''my-skill''] ''run.sh'' = [''s'', ''my-skill'', ''run.sh'']"
  "path_join [''s'', ''my-skill''] ''.skill-manager.json'' = [''s'', ''my-skill'', ''.skill-manager.json'']"
  by (simp_all add: path_join_def join_component_def)

lemma demo_mkdir:
  "mkdir_recursive [[] \<mapsto> Dir] [''s''] = Inr [[] \<mapsto> Dir, [''s''] \<mapsto> Dir]"
  "mkdir_recursive [[] \<mapsto> Dir, [''s''] \<mapsto> Dir] [''s'', ''my-skill'']
     = Inr [[] \<mapsto> Dir, [''s''] \<mapsto> Dir, [''s'', ''my-skill''] \<mapsto> Dir]"
  by (simp_all add: mkdir_recursive.simps)

lemma demo_skill:
  "skill_files (skill_demo fs) = fs" "skill_repository (skill_demo fs) = ''acme/demo''"
  "skill_name (skill_demo fs) = ''My Skill''" "skill_id (skill_demo fs) = ''acme/demo/a''"
  "skill_path (skill_demo fs) = ''a''" "skill_version (skill_demo fs) = None"
  by (simp_all add: skill_demo_def)

lemma demo_net:
  "net env_demo log \<lparr>req_url = ''https://raw.githubusercontent.com/acme/demo/main/a/README.md'', req_headers = []\<rparr>
     = Inr \<lparr>status = 200, statusText = ''OK'', headers = Map.empty, json = None, raw_body = Some ''text''\<rparr>"
  "net env_demo log \<lparr>req_url = ''https://raw.githubusercontent.com/acme/demo/main/a/SKILL.md'', req_headers = []\<rparr>
     = Inr \<lparr>status = 200, statusText = ''OK'', headers = Map.empty, json = None, raw_body = Some ''text''\<rparr>"
  "net env_demo log \<lparr>req_url = ''https://raw.githubusercontent.com/acme/demo/main/a/run.sh'', req_headers = []\<rparr>
     = Inr \<lparr>status = 404, statusText = ''Not Found'', headers = Map.empty, json = None, raw_body = None\<rparr>"
  "clock env_demo n = 1000 + int n"
  by (simp_all add: env_demo_def)

lemma install_readme_only:
  "install 0 env_demo (skill_demo [file_demo ''README.md'']) (state_demo [[] \<mapsto> Dir]) =
     Some (\<lparr>res_success = False, res_skill = skill_demo [file_demo ''README.md''],
             res_localPath = None, res_error = Some ManifestNotFound\<rparr>,
           \<lparr>cache = Map.empty, rateLimitInfo = None,
            disk = rm_recursive
                     [[] \<mapsto> Dir, [''s''] \<mapsto> Dir, [''s'', ''my-skill''] \<mapsto> Dir,
                      [''s'', ''my-skill'', ''README.md''] \<mapsto> RegularFile (Buffer ''text'')]
                     [''s'', ''my-skill''],
            requests = [\<lparr>req_url = ''https://raw.githubusercontent.com/acme/demo/main/a/README.md'',
                          req_headers = []\<rparr>],
            ticks = 0\<rparr>)"
  by (simp add: install_def ensureInstallDirectory_def isInstalled_def demo_paths demo_join
      state_demo_def demo_mkdir downloadPhase_def demo_skill file_demo_def downloadFile_def
      fetch_def demo_net ok_def writeFile_def access_def)

lemma install_manifest_only_run_sh_missing:
  "install 0 env_demo (skill_demo [file_demo ''SKILL.md'', file_demo ''run.sh'']) (state_demo [[] \<mapsto> Dir]) =
     Some (\<lparr>res_success = True, res_skill = skill_demo [file_demo ''SKILL.md'', file_demo ''run.sh''],
             res_localPath = Some [''s'', ''my-skill''], res_error = None\<rparr>,
           \<lparr>cache = Map.empty, rateLimitInfo = None,
            disk = [[] \<mapsto> Dir, [''s''] \<mapsto> Dir, [''s'', ''my-skill''] \<mapsto> Dir,
                    [''s'', ''my-skill'', ''SKILL.md''] \<mapsto> RegularFile (Buffer ''text''),
                    [''s'', ''my-skill'', ''.skill-manager.json''] \<mapsto>
                      RegularFile (MetadataJson \<lparr>meta_id = ''acme/demo/a'', meta_name = ''My Skill'',
                        meta_repository = ''acme/demo'', meta_path = ''a'', meta_installedAt = 1000,
                        meta_version = None\<rparr>)],
            requests = [\<lparr>req_url = ''https://raw.githubusercontent.com/acme/demo/main/a/SKILL.md'',
                          req_headers = []\<rparr>,
                        \<lparr>req_url = ''https://raw.githubusercontent.com/acme/demo/main/a/run.sh'',
                          req_headers = []\<rparr>],
            ticks = 1\<rparr>)"
  by (simp add: install_def ensureInstallDirectory_def isInstalled_def demo_paths demo_join
      state_demo_def demo_mkdir downloadPhase_def demo_skill file_demo_def downloadFile_def
      fetch_def demo_net ok_def writeFile_def access_def saveInstallMetadata_def dateNow_def)

theorem install_already_installed_witness:
  "install 0 env_demo (skill_demo [file_demo ''SKILL.md'']) (state_demo disk_installed) =
     Some (\<lparr>res_success = False, res_skill = skill_demo [file_demo ''SKILL.md''],
             res_localPath = Some [''s'', ''my-skill''], res_error = Some AlreadyInstalled\<rparr>,
           state_demo disk_installed)"
proof -
  have 1: "disk (state_demo disk_installed) (getSkillLocalPath env_demo (skill_demo [file_demo ''SKILL.md''])) = Some Dir"
    by (simp add: demo_paths state_demo_def disk_installed_def)
  have 2: "disk (state_demo disk_installed) (getInstallPath env_demo) \<noteq> None"
    by (simp add: demo_paths state_demo_def disk_installed_def)
  from install_already_installed [OF 1 2, of 0] show ?thesis by (simp add: demo_paths)
qed

text \<open>
  The claim as stated says the run ends with no error; the result of the run carries one.
\<close>

theorem install_already_installed_counterexample:
  "disk (state_demo disk_installed) [''s'', ''my-skill''] = Some Dir
   \<and> getSkillLocalPath env_demo (skill_demo [file_demo ''SKILL.md'']) = [''s'', ''my-skill'']
   \<and> map_option (\<lambda>x. res_error (fst x))
         (install 0 env_demo (skill_demo [file_demo ''SKILL.md'']) (state_demo disk_installed))
       = Some (Some AlreadyInstalled)
   \<and> map_option (\<lambda>x. res_success (fst x))
         (install 0 env_demo (skill_demo [file_demo ''SKILL.md'']) (state_demo disk_installed))
       = Some False"
  by (simp add: install_def ensureInstallDirectory_def isInstalled_def demo_paths
      state_demo_def disk_installed_def mkdir_recursive.simps)

lemma demo_net_tree:
  "net env_demo log \<lparr>req_url = ''https://api.github.com/repos/acme/demo/git/trees/main?recursive=1'', req_headers = h\<rparr>
     = Inr \<lparr>status = 404, statusText = ''Not Found'', headers = Map.empty, json = None, raw_body = None\<rparr>"
  by (simp add: env_demo_def)

lemma demo_mkdir_lib:
  "mkdir_recursive [[] \<mapsto> Dir, [''s''] \<mapsto> Dir, [''s'', ''my-skill''] \<mapsto> Dir] [''s'', ''my-skill'', ''lib'']
     = Inr [[] \<mapsto> Dir, [''s''] \<mapsto> Dir, [''s'', ''my-skill''] \<mapsto> Dir, [''s'', ''my-skill'', ''lib''] \<mapsto> Dir]"
  "path_join [''s'', ''my-skill''] ''lib'' = [''s'', ''my-skill'', ''lib'']"
  by (simp_all add: mkdir_recursive.simps path_join_def join_component_def)

lemma install_mirror_throws:
  "map_option (\<lambda>x. (res_error (fst x), res_success (fst x)))
     (install 1 env_demo (skill_demo [dir_demo ''lib'']) (state_demo [[] \<mapsto> Dir]))
   = Some (Some (Thrown (GitHubApiError 404 ''Not Found'')), False)
   \<and> map_option (\<lambda>x. disk (snd x) [''s'', ''my-skill'', ''SKILL.md''])
     (install 1 env_demo (skill_demo [dir_demo ''lib'']) (state_demo [[] \<mapsto> Dir])) = Some None"
  by (simp add: install_def ensureInstallDirectory_def isInstalled_def demo_paths demo_join
      state_demo_def demo_mkdir demo_mkdir_lib downloadPhase_def demo_skill dir_demo_def
      fetch_def demo_net_tree ok_def fetchRepositoryTree_def fetchWithCache_def
      refetch_def handleResponse_def GITHUB_API_BASE_def updateRateLimit_def Let_def)

theorem install_manifest_missing_witness:
  "(\<exists>r s'. install 0 env_demo (skill_demo [file_demo ''README.md'']) (state_demo [[] \<mapsto> Dir]) = Some (r, s')
        \<and> res_error r = Some ManifestNotFound \<and> \<not> res_success r
        \<and> disk s' [''s'', ''my-skill''] = None
        \<and> disk s' [''s'', ''my-skill'', ''README.md''] = None)
   \<and> (\<exists>r s'. install 0 env_demo (skill_demo [file_demo ''SKILL.md'', file_demo ''run.sh''])
               (state_demo [[] \<mapsto> Dir]) = Some (r, s')
        \<and> res_success r \<and> disk s' [''s'', ''my-skill'', ''run.sh''] = None
        \<and> disk s' [''s'', ''my-skill''] = Some Dir
        \<and> fs_grows [[] \<mapsto> Dir] (disk s'))
   \<and> (\<exists>r s'. install 1 env_demo (skill_demo [dir_demo ''lib'']) (state_demo [[] \<mapsto> Dir]) = Some (r, s')
        \<and> res_error r = Some (Thrown (GitHubApiError 404 ''Not Found''))
        \<and> disk s' [''s'', ''my-skill'', ''SKILL.md''] = None
        \<and> disk s' [''s'', ''my-skill''] = Some Dir)"
proof -
  let ?env = env_demo and ?sk = "skill_demo [file_demo ''README.md'']"
  let ?s = "state_demo [[] \<mapsto> Dir]"
  let ?s1 = "state_demo [[] \<mapsto> Dir, [''s''] \<mapsto> Dir]"
  let ?d = "[[] \<mapsto> Dir, [''s''] \<mapsto> Dir, [''s'', ''my-skill''] \<mapsto> Dir] :: filesystem"
  let ?s4 = "\<lparr>cache = Map.empty, rateLimitInfo = None,
            disk = [[] \<mapsto> Dir, [''s''] \<mapsto> Dir, [''s'', ''my-skill''] \<mapsto> Dir,
                    [''s'', ''my-skill'', ''README.md''] \<mapsto> RegularFile (Buffer ''text'')],
            requests = [\<lparr>req_url = ''https://raw.githubusercontent.com/acme/demo/main/a/README.md'',
                          req_headers = []\<rparr>],
            ticks = 0\<rparr> :: RepositoryTree state"
  have h: "ensureInstallDirectory ?env ?s = (Inr (), ?s1) \<and> \<not> isInstalled ?env ?sk ?s1
      \<and> downloadPhase 0 ?env ?sk (getSkillLocalPath ?env ?sk) ?s1 = Some (Inr (), ?s4)
      \<and> disk ?s4 (path_join (getSkillLocalPath ?env ?sk) ''SKILL.md'') = None"
    by (simp add: ensureInstallDirectory_def isInstalled_def demo_paths demo_join
      state_demo_def demo_mkdir downloadPhase_def demo_skill file_demo_def downloadFile_def
      fetch_def demo_net ok_def writeFile_def)
  from install_manifest_missing [where env = ?env and s = ?s and ?s1.0 = ?s1 and skill = ?sk
        and fuel = 0 and ?s4.0 = ?s4] h
  have i: "install 0 ?env ?sk ?s =
          Some (\<lparr>res_success = False, res_skill = ?sk, res_localPath = None,
                  res_error = Some ManifestNotFound\<rparr>,
                ?s4\<lparr>disk := rm_recursive (disk ?s4) (getSkillLocalPath ?env ?sk)\<rparr>)"
    by blast
  let ?r = "\<lparr>res_success = False, res_skill = ?sk, res_localPath = None,
                  res_error = Some ManifestNotFound\<rparr>"
  let ?s' = "?s4\<lparr>disk := rm_recursive (disk ?s4) (getSkillLocalPath ?env ?sk)\<rparr>"
  from install_manifest_missing [where env = ?env and s = ?s and skill = ?sk and fuel = 0
        and r = ?r and s' = ?s'] i
  have g: "\<not> res_success ?r \<and> (\<forall>q. prefix (getSkillLocalPath ?env ?sk) q \<longrightarrow> disk ?s' q = None)"
    by simp
  have p1: "prefix (getSkillLocalPath ?env ?sk) [''s'', ''my-skill'']"
    and p2: "prefix (getSkillLocalPath ?env ?sk) [''s'', ''my-skill'', ''README.md'']"
    by (simp_all add: demo_paths)
  from g p1 p2 have "disk ?s' [''s'', ''my-skill''] = None \<and> disk ?s' [''s'', ''my-skill'', ''README.md''] = None"
    by blast
  with i have A: "\<exists>r s'. install 0 ?env ?sk ?s = Some (r, s')
        \<and> res_error r = Some ManifestNotFound \<and> \<not> res_success r
        \<and> disk s' [''s'', ''my-skill''] = None
        \<and> disk s' [''s'', ''my-skill'', ''README.md''] = None"
    by simp
  have e: "ensureInstallDirectory ?env ?s = (Inr (), ?s1)"
    by (simp add: ensureInstallDirectory_def demo_paths state_demo_def demo_mkdir)
  have n: "\<not> isInstalled ?env (skill_demo fs) ?s1" for fs
    by (simp add: isInstalled_def demo_paths state_demo_def)
  have m: "mkdir_recursive (disk ?s1) (getSkillLocalPath ?env (skill_demo fs)) = Inr ?d" for fs
    by (simp add: demo_paths state_demo_def demo_mkdir)
  let ?sk2 = "skill_demo [file_demo ''SKILL.md'', file_demo ''run.sh'']"
  obtain r2 s2 where j: "install 0 ?env ?sk2 ?s = Some (r2, s2)" "res_success r2" "res_error r2 = None"
      "disk s2 [''s'', ''my-skill'', ''run.sh''] = None"
    using install_manifest_only_run_sh_missing by simp
  from install_manifest_missing [where env = ?env and s = ?s and ?s1.0 = ?s1 and skill = ?sk2
        and fuel = 0 and r = r2 and s' = s2 and d = ?d] j e n[of "[file_demo ''SKILL.md'', file_demo ''run.sh'']"]
        m[of "[file_demo ''SKILL.md'', file_demo ''run.sh'']"]
  have "fs_grows (disk ?s) (disk s2) \<and> disk s2 (getSkillLocalPath ?env ?sk2) = Some Dir" by simp
  then have "fs_grows [[] \<mapsto> Dir] (disk s2) \<and> disk s2 [''s'', ''my-skill''] = Some Dir"
    by (simp add: state_demo_def demo_paths)
  with j have B: "\<exists>r s'. install 0 ?env ?sk2 ?s = Some (r, s')
        \<and> res_success r \<and> disk s' [''s'', ''my-skill'', ''run.sh''] = None
        \<and> disk s' [''s'', ''my-skill''] = Some Dir
        \<and> fs_grows [[] \<mapsto> Dir] (disk s')"
    by blast
  let ?sk3 = "skill_demo [dir_demo ''lib'']"
  obtain r3 s3 where k: "install 1 ?env ?sk3 ?s = Some (r3, s3)"
      "res_error r3 = Some (Thrown (GitHubApiError 404 ''Not Found''))"
      "disk s3 [''s'', ''my-skill'', ''SKILL.md''] = None"
    using install_mirror_throws by auto
  from install_manifest_missing [where env = ?env and s = ?s and ?s1.0 = ?s1 and skill = ?sk3
        and fuel = 1 and r = r3 and s' = s3 and d = ?d] k e n[of "[dir_demo ''lib'']"]
        m[of "[dir_demo ''lib'']"]
  have "disk s3 (getSkillLocalPath ?env ?sk3) = Some Dir" by simp
  then have "disk s3 [''s'', ''my-skill''] = Some Dir" by (simp add: demo_paths)
  with k have C: "\<exists>r s'. install 1 ?env ?sk3 ?s = Some (r, s')
        \<and> res_error r = Some (Thrown (GitHubApiError 404 ''Not Found''))
        \<and> disk s' [''s'', ''my-skill'', ''SKILL.md''] = None
        \<and> disk s' [''s'', ''my-skill''] = Some Dir"
    by blast
  from A B C show ?thesis by blast
qed

theorem uninstall_removes_witness:
  "fst (uninstall env_demo (skill_demo []) (state_demo disk_installed)) = Inr ()
   \<and> disk (snd (uninstall env_demo (skill_demo []) (state_demo disk_installed))) [''s'', ''my-skill''] = None
   \<and> disk (snd (uninstall env_demo (skill_demo []) (state_demo disk_installed)))
         [''s'', ''my-skill'', ''SKILL.md''] = None
   \<and> disk (snd (uninstall env_demo (skill_demo []) (state_demo disk_installed))) [''s''] = Some Dir
   \<and> uninstall env_demo (skill_demo []) (state_demo [[] \<mapsto> Dir, [''s''] \<mapsto> Dir])
     = (Inl (NotInstalled ''My Skill''), state_demo [[] \<mapsto> Dir, [''s''] \<mapsto> Dir])"
proof -
  have 1: "disk (state_demo disk_installed) (getSkillLocalPath env_demo (skill_demo [])) = Some Dir"
    by (simp add: demo_paths state_demo_def disk_installed_def)
  have 2: "disk (state_demo [[] \<mapsto> Dir, [''s''] \<mapsto> Dir]) (getSkillLocalPath env_demo (skill_demo [])) \<noteq> Some Dir"
    by (simp add: demo_paths state_demo_def)
  from uninstall_removes [of env_demo "skill_demo []" "state_demo disk_installed"] 1
  have "uninstall env_demo (skill_demo []) (state_demo disk_installed) =
          (Inr (), (state_demo disk_installed)\<lparr>disk := (\<lambda>q. if prefix (getSkillLocalPath env_demo (skill_demo [])) q
                      then None else disk (state_demo disk_installed) q)\<rparr>)"
    by blast
  then have a: "fst (uninstall env_demo (skill_demo []) (state_demo disk_installed)) = Inr ()
   \<and> disk (snd (uninstall env_demo (skill_demo []) (state_demo disk_installed))) [''s'', ''my-skill''] = None
   \<and> disk (snd (uninstall env_demo (skill_demo []) (state_demo disk_installed)))
         [''s'', ''my-skill'', ''SKILL.md''] = None
   \<and> disk (snd (uninstall env_demo (skill_demo []) (state_demo disk_installed))) [''s''] = Some Dir"
    by (simp add: demo_paths state_demo_def disk_installed_def)
  from uninstall_removes [of env_demo "skill_demo []" "state_demo [[] \<mapsto> Dir, [''s''] \<mapsto> Dir]"] 2
  have b: "uninstall env_demo (skill_demo []) (state_demo [[] \<mapsto> Dir, [''s''] \<mapsto> Dir])
     = (Inl (NotInstalled ''My Skill''), state_demo [[] \<mapsto> Dir, [''s''] \<mapsto> Dir])"
    by (simp add: demo_skill)
  from a b show ?thesis by simp
qed


subsection \<open>Runs that mirror a subdirectory\<close>

text \<open>
  A bundle with no subdirectory never calls \<^verbatim>\<open>downloadDirectory\<close>, so its install returns
  at every depth allowed.
\<close>

lemma install_returns_flat:
  "filter (\<lambda>f. file_type f = Directory) (skill_files skill) = [] \<Longrightarrow>
   install fuel env skill s \<noteq> None"
  by (auto simp: install_def downloadPhase_def split: prod.splits sum.splits option.splits)

text \<open>
  More depth never changes a run that returned: a result reached with some depth allowed
  is the result at every greater depth.
\<close>

lemma downloadNodes_more_fuel_step:
  assumes dir: "\<And>repo rp l s x. downloadDirectory n env repo rp l s = Some x \<Longrightarrow>
                  downloadDirectory (Suc n) env repo rp l s = Some x"
  shows "downloadNodes n env repo pfx l nodes s = Some x \<Longrightarrow>
         downloadNodes (Suc n) env repo pfx l nodes s = Some x"
proof (induction nodes arbitrary: s)
  case Nil
  then show ?case by simp
next
  case (Cons node nodes)
  show ?case
  proof (cases "startsWith (node_path node) pfx
                  \<and> \<not> includes_str (drop (length pfx) (node_path node)) ''/''")
    case False
    with Cons.prems have "downloadNodes n env repo pfx l nodes s = Some x"
      by (auto split: if_splits)
    then have "downloadNodes (Suc n) env repo pfx l nodes s = Some x" by (rule Cons.IH)
    with False show ?thesis by auto
  next
    case True
    show ?thesis
    proof (cases "node_type node")
      case Blob
      obtain y s1 where d: "downloadFile env repo (node_path node) s = (y, s1)" by force
      show ?thesis
      proof (cases y)
        case (Inl e)
        with Cons.prems True Blob d show ?thesis by auto
      next
        case (Inr content)
        show ?thesis
        proof (cases "writeFile (disk s1) (path_join l (drop (length pfx) (node_path node))) (Buffer content)")
          case (Inl e)
          with Cons.prems True Blob d Inr show ?thesis by auto
        next
          case w: (Inr dd)
          have "downloadNodes n env repo pfx l nodes (s1\<lparr>disk := dd\<rparr>) = Some x"
            using Cons.prems True Blob d Inr w by simp
          then have "downloadNodes (Suc n) env repo pfx l nodes (s1\<lparr>disk := dd\<rparr>) = Some x"
            by (rule Cons.IH)
          with True Blob d Inr w show ?thesis by simp
        qed
      qed
    next
      case Tree
      show ?thesis
      proof (cases "downloadDirectory n env repo (node_path node)
                      (path_join l (drop (length pfx) (node_path node))) s")
        case None
        with Cons.prems True Tree show ?thesis by simp
      next
        case (Some a)
        then have up: "downloadDirectory (Suc n) env repo (node_path node)
                      (path_join l (drop (length pfx) (node_path node))) s = Some a"
          by (rule dir)
        obtain y s1 where a: "a = (y, s1)" by force
        show ?thesis
        proof (cases y)
          case (Inl e)
          with Cons.prems True Tree Some a have "x = (Inl e, s1)" by simp
          with True Tree up a Inl show ?thesis by (simp del: downloadDirectory.simps)
        next
          case (Inr u)
          then have "downloadNodes n env repo pfx l nodes s1 = Some x"
            using Cons.prems True Tree Some a by simp
          then have "downloadNodes (Suc n) env repo pfx l nodes s1 = Some x" by (rule Cons.IH)
          with True Tree up a Inr show ?thesis by (simp del: downloadDirectory.simps)
        qed
      qed
    qed
  qed
qed

lemma downloadDirectory_more_fuel:
  "downloadDirectory n env repo rp l s = Some x \<Longrightarrow> downloadDirectory (Suc n) env repo rp l s = Some x"
proof (induction n arbitrary: repo rp l s x)
  case 0
  then show ?case by simp
next
  case (Suc n)
  show ?case
  proof (cases "mkdir_recursive (disk s) l")
    case (Inl e)
    with Suc.prems show ?thesis by auto
  next
    case m: (Inr d)
    obtain y s1 where f: "fetchRepositoryTree env repo (s\<lparr>disk := d\<rparr>) = (y, s1)" by force
    show ?thesis
    proof (cases y)
      case (Inl e)
      with Suc.prems m f show ?thesis by auto
    next
      case (Inr t)
      with Suc.prems m f
      have "downloadNodes n env repo (rp @ ''/'') l (tree t) s1 = Some x" by simp
      then have "downloadNodes (Suc n) env repo (rp @ ''/'') l (tree t) s1 = Some x"
        by (rule downloadNodes_more_fuel_step[rotated]) (rule Suc.IH)
      with m f Inr show ?thesis by (simp del: downloadNodes.simps)
    qed
  qed
qed

lemma downloadDirs_more_fuel:
  "downloadDirs n env repo l dirs s = Some x \<Longrightarrow> downloadDirs (Suc n) env repo l dirs s = Some x"
proof (induction dirs arbitrary: s)
  case Nil
  then show ?case by simp
next
  case (Cons dir dirs)
  show ?case
  proof (cases "downloadDirectory n env repo (file_path dir) (path_join l (file_name dir)) s")
    case None
    with Cons.prems show ?thesis by simp
  next
    case (Some a)
    then have up: "downloadDirectory (Suc n) env repo (file_path dir) (path_join l (file_name dir)) s = Some a"
      by (rule downloadDirectory_more_fuel)
    obtain y s1 where a: "a = (y, s1)" by force
    show ?thesis
    proof (cases y)
      case (Inl e)
      with Cons.prems Some a have "x = (Inl e, s1)" by simp
      with up a Inl show ?thesis by (simp del: downloadDirectory.simps)
    next
      case (Inr u)
      with Cons.prems Some a have "downloadDirs n env repo l dirs s1 = Some x" by simp
      then have "downloadDirs (Suc n) env repo l dirs s1 = Some x" by (rule Cons.IH)
      with up a Inr show ?thesis by (simp del: downloadDirectory.simps)
    qed
  qed
qed

lemma install_more_fuel:
  "install n env skill s = Some x \<Longrightarrow> install (Suc n) env skill s = Some x"
proof -
  assume a: "install n env skill s = Some x"
  have p: "downloadPhase n env skill l t = Some y \<Longrightarrow> downloadPhase (Suc n) env skill l t = Some y"
    for l t y
    by (auto simp: downloadPhase_def split: sum.splits dest: downloadDirs_more_fuel)
  obtain e s1 where en: "ensureInstallDirectory env s = (e, s1)" by force
  show ?thesis
  proof (cases "downloadPhase n env skill (getSkillLocalPath env skill) s1")
    case None
    with a en show ?thesis
      by (auto simp: install_def split: sum.splits if_splits)
  next
    case (Some y)
    then have "downloadPhase (Suc n) env skill (getSkillLocalPath env skill) s1 = Some y" by (rule p)
    with a en Some show ?thesis
      by (simp add: install_def split: sum.splits if_splits)
  qed
qed

text \<open>
  A run through a subdirectory: the direct manifest fails to download and is passed over,
  the subdirectory is mirrored with one tree request and one download, and the missing
  manifest then rolls the directory back. With no depth allowed the run is cut short.
\<close>

lemma tree_paths:
  "getInstallPath env_tree = [''s'']"
  "getSkillLocalPath env_tree (skill_demo fs) = [''s'', ''my-skill'']"
  by (simp_all add: getSkillLocalPath_def getInstallPath_def env_tree_def skill_demo_def path_join_def
      join_component_def startsWith_def demo_name)

lemma tree_net:
  "net env_tree log \<lparr>req_url = ''https://api.github.com/repos/acme/demo/git/trees/main?recursive=1'', req_headers = h\<rparr>
     = Inr \<lparr>status = 200, statusText = ''OK'', headers = Map.empty, json = Some tree_demo, raw_body = None\<rparr>"
  "net env_tree log \<lparr>req_url = ''https://raw.githubusercontent.com/acme/demo/main/a/lib/SKILL.md'', req_headers = []\<rparr>
     = Inr \<lparr>status = 200, statusText = ''OK'', headers = Map.empty, json = None, raw_body = Some ''text''\<rparr>"
  "net env_tree log \<lparr>req_url = ''https://raw.githubusercontent.com/acme/demo/main/a/SKILL.md'', req_headers = []\<rparr>
     = Inr \<lparr>status = 404, statusText = ''Not Found'', headers = Map.empty, json = None, raw_body = None\<rparr>"
  "clock env_tree n = 1000 + int n" "githubToken env_tree = []" "cacheExpirySeconds env_tree = 3600"
  by (simp_all add: env_tree_def)

lemma tree_mkdir:
  "mkdir_recursive [[] \<mapsto> Dir] [''s''] = Inr [[] \<mapsto> Dir, [''s''] \<mapsto> Dir]"
  "mkdir_recursive [[] \<mapsto> Dir, [''s''] \<mapsto> Dir] [''s'', ''my-skill'']
     = Inr [[] \<mapsto> Dir, [''s''] \<mapsto> Dir, [''s'', ''my-skill''] \<mapsto> Dir]"
  "mkdir_recursive [[] \<mapsto> Dir, [''s''] \<mapsto> Dir, [''s'', ''my-skill''] \<mapsto> Dir] [''s'', ''my-skill'', ''lib'']
     = Inr [[] \<mapsto> Dir, [''s''] \<mapsto> Dir, [''s'', ''my-skill''] \<mapsto> Dir, [''s'', ''my-skill'', ''lib''] \<mapsto> Dir]"
  by (simp_all add: mkdir_recursive.simps)

lemma tree_join:
  "path_join [''s'', ''my-skill''] ''SKILL.md'' = [''s'', ''my-skill'', ''SKILL.md'']"
  "path_join [''s'', ''my-skill''] ''lib'' = [''s'', ''my-skill'', ''lib'']"
  "path_join [''s'', ''my-skill'', ''lib''] ''SKILL.md'' = [''s'', ''my-skill'', ''lib'', ''SKILL.md'']"
  by (simp_all add: path_join_def join_component_def)

lemma install_subdirectory_run:
  "map_option (\<lambda>x. (res_error (fst x), disk (snd x) [''s'', ''my-skill''], length (requests (snd x))))
     (install 1 env_tree (skill_demo [file_demo ''SKILL.md'', dir_demo ''lib'']) (state_demo [[] \<mapsto> Dir]))
   = Some (Some ManifestNotFound, None, 3)
   \<and> install 0 env_tree (skill_demo [file_demo ''SKILL.md'', dir_demo ''lib'']) (state_demo [[] \<mapsto> Dir]) = None"
  by (simp add: install_def ensureInstallDirectory_def isInstalled_def tree_paths tree_join
      state_demo_def tree_mkdir downloadPhase_def demo_skill file_demo_def dir_demo_def downloadFile_def
      fetch_def tree_net ok_def writeFile_def access_def fetchRepositoryTree_def fetchWithCache_def
      refetch_def handleResponse_def GITHUB_API_BASE_def getHeaders_def dateNow_def updateRateLimit_def Let_def
      tree_demo_def startsWith_def cacheExpiry_def rm_recursive_def)

end
